theory Spec2Isabelle
  imports Main "HOL-Library.AList" "HOL-Library.Multiset" "HOL-Library.Sublist"
begin

section \<open>Data model of eslint-server/src/server.ts\<close>

text \<open>
  JavaScript numbers that hold line numbers, columns, character offsets and document
  versions are modelled as \<open>int\<close>; strings as \<open>string\<close>. A property that may be
  \<open>undefined\<close> or \<open>null\<close> and whose two absent values are treated alike by the code
  (\<open>x != null\<close>) is an \<open>option\<close>. The rule id is printed into a template string, where
  \<open>undefined\<close> and \<open>null\<close> differ, so it keeps both absent values.
\<close>

datatype 'a nullable = Undefined | Null | Value 'a

text \<open>Truthiness of a possibly absent string: \<open>undefined\<close>, \<open>null\<close> and the empty string are falsy.\<close>

definition truthy :: "string nullable \<Rightarrow> bool" where
  "truthy v = (case v of Undefined \<Rightarrow> False | Null \<Rightarrow> False | Value s \<Rightarrow> s \<noteq> [])"

text \<open>Conversion to a string inside a template literal.\<close>

definition toStr :: "string nullable \<Rightarrow> string" where
  "toStr v = (case v of Undefined \<Rightarrow> ''undefined'' | Null \<Rightarrow> ''null'' | Value s \<Rightarrow> s)"

fun showNat :: "nat \<Rightarrow> string" where
  "showNat n = (if n < 10 then [char_of (48 + n)]
                else showNat (n div 10) @ [char_of (48 + n mod 10)])"

declare showNat.simps [simp del]

text \<open>An integral number in a template literal: decimal digits, a minus sign when negative.\<close>

definition showInt :: "int \<Rightarrow> string" where
  "showInt i = (if i < 0 then CHR ''-'' # showNat (nat (- i)) else showNat (nat i))"

datatype Status = StatusOk | StatusWarn | StatusError

datatype DiagnosticSeverity = Error | Warning | Information | Hint

datatype Position = Position_create int int

datatype LspRange = Range_create Position Position

text \<open>
  An edit's \<open>range\<close> is a pair of offsets, \<open>range[0]\<close> and \<open>range[1]\<close>; its \<open>text\<close> is a
  string, so that \<open>text || ''\<close> is the text.
\<close>

record ESLintAutoFixEdit =
  range0 :: int
  range1 :: int
  edit_text :: string

record ESLintProblem =
  line :: int
  column :: int
  endLine :: "int option"
  endColumn :: "int option"
  severity :: int
  ruleId :: "string nullable"
  message :: string
  problem_fix :: "ESLintAutoFixEdit option"

record Diagnostic =
  d_message :: string
  d_severity :: DiagnosticSeverity
  d_source :: string
  d_range :: LspRange
  d_code :: "string nullable"

record AutoFix =
  label :: string
  documentVersion :: int
  fix_ruleId :: string
  edit :: ESLintAutoFixEdit

record TextDocument =
  uri :: string
  languageId :: string
  version :: int
  getText :: string
  positionAt :: "int \<Rightarrow> Position"

section \<open>Diagnostic converter\<close>

definition convertSeverity :: "int \<Rightarrow> DiagnosticSeverity" where
  "convertSeverity sev = (if sev = 1 then Warning else if sev = 2 then Error else Error)"

definition makeDiagnostic :: "ESLintProblem \<Rightarrow> Diagnostic" where
  "makeDiagnostic problem =
     (let msg = (case ruleId problem of
                   Value r \<Rightarrow> message problem @ '' ('' @ r @ '')''
                 | _ \<Rightarrow> message problem);
          startLine = max 0 (line problem - 1);
          startChar = max 0 (column problem - 1);
          endLine' = (case endLine problem of Some e \<Rightarrow> max 0 (e - 1) | None \<Rightarrow> startLine);
          endChar = (case endColumn problem of Some e \<Rightarrow> max 0 (e - 1) | None \<Rightarrow> startChar)
      in \<lparr> d_message = msg,
           d_severity = convertSeverity (severity problem),
           d_source = ''eslint'',
           d_range = Range_create (Position_create startLine startChar)
                                  (Position_create endLine' endChar),
           d_code = ruleId problem \<rparr>)"

section \<open>Fix registry\<close>

definition computeKey :: "Diagnostic \<Rightarrow> string" where
  "computeKey diagnostic =
     (case d_range diagnostic of
        Range_create (Position_create sl sc) (Position_create el ec) \<Rightarrow>
          ''['' @ showInt sl @ '','' @ showInt sc @ '','' @ showInt el @ '','' @ showInt ec
          @ '']-'' @ toStr (d_code diagnostic))"

text \<open>
  \<open>codeActions\<close> maps a document URI to that document's fixes. The inner object is an
  association list in insertion order, which is the order \<open>Object.keys\<close> lists its keys
  in; assigning to an existing key keeps its place (\<open>AList.update\<close>).
\<close>

type_synonym Edits = "(string \<times> AutoFix) list"

type_synonym Registry = "string \<rightharpoonup> Edits"

definition recordCodeAction ::
  "TextDocument \<Rightarrow> Diagnostic \<Rightarrow> ESLintProblem \<Rightarrow> Registry \<Rightarrow> Registry" where
  "recordCodeAction document diagnostic problem codeActions =
     (case problem_fix problem of
        None \<Rightarrow> codeActions
      | Some f \<Rightarrow>
          (case ruleId problem of
             Value r \<Rightarrow>
               if r = [] then codeActions
               else
                 (let edits = (case codeActions (uri document) of None \<Rightarrow> [] | Some e \<Rightarrow> e)
                  in codeActions(uri document \<mapsto>
                       AList.update (computeKey diagnostic)
                         \<lparr> label = ''Fix this '' @ r @ '' problem'',
                           documentVersion = version document,
                           fix_ruleId = r,
                           edit = f \<rparr> edits))
           | _ \<Rightarrow> codeActions))"

section \<open>Fix resolver (class Fixes)\<close>

text \<open>
  A \<open>Fixes\<close> object holds the per-document object \<open>edits\<close> and \<open>keys = Object.keys(edits)\<close>.
  A property read \<open>this.edits[key]\<close> is \<open>map_of edits key\<close>.
\<close>

datatype jsError = TypeError

definition keys :: "Edits \<Rightarrow> string list" where
  "keys edits = map fst edits"

definition overlaps :: "AutoFix option \<Rightarrow> AutoFix \<Rightarrow> bool" where
  "overlaps lastEdit newEdit =
     (case lastEdit of None \<Rightarrow> False
      | Some l \<Rightarrow> range1 (edit l) > range0 (edit newEdit))"

definition isEmpty :: "Edits \<Rightarrow> bool" where
  "isEmpty edits = (length (keys edits) = 0)"

text \<open>
  \<open>this.edits[this.keys[0]].documentVersion\<close>: with no key, \<open>this.keys[0]\<close> is \<open>undefined\<close>,
  the property read is of the name \<open>''undefined''\<close>, and reading \<open>documentVersion\<close> of an
  absent entry throws a TypeError.
\<close>

definition getDocumentVersion :: "Edits \<Rightarrow> jsError + int" where
  "getDocumentVersion edits =
     (case map_of edits (case keys edits of [] \<Rightarrow> ''undefined'' | k # _ \<Rightarrow> k) of
        None \<Rightarrow> Inl TypeError
      | Some editInfo \<Rightarrow> Inr (documentVersion editInfo))"

fun getScoped :: "Edits \<Rightarrow> Diagnostic list \<Rightarrow> AutoFix list" where
  "getScoped edits [] = []"
| "getScoped edits (diagnostic # diagnostics) =
     (case map_of edits (computeKey diagnostic) of
        None \<Rightarrow> getScoped edits diagnostics
      | Some editInfo \<Rightarrow> editInfo # getScoped edits diagnostics)"

text \<open>The comparison function handed to \<open>sort\<close> in \<open>getAllSorted\<close>.\<close>

definition compareFixes :: "AutoFix \<Rightarrow> AutoFix \<Rightarrow> int" where
  "compareFixes a b =
     (let d = range0 (edit a) - range0 (edit b) in
      if d \<noteq> 0 then d
      else if range1 (edit a) = 0 then - 1
      else if range1 (edit b) = 0 then 1
      else range1 (edit a) - range1 (edit b))"

text \<open>
  \<open>Array.prototype.sort\<close> is the language's, not the repository's. It is modelled as the
  insertion sort that reads only the sign of the comparison function: each element in
  turn moves left past every element \<open>tmp\<close> of the sorted prefix, scanned from its right
  end, for which \<open>comparefn(tmp, element) > 0\<close>. The sorted prefix is kept reversed.
\<close>

fun insertDesc :: "('a \<Rightarrow> 'a \<Rightarrow> int) \<Rightarrow> 'a \<Rightarrow> 'a list \<Rightarrow> 'a list" where
  "insertDesc comparefn element [] = [element]"
| "insertDesc comparefn element (tmp # rest) =
     (if comparefn tmp element > 0 then tmp # insertDesc comparefn element rest
      else element # tmp # rest)"

definition arraySort :: "('a \<Rightarrow> 'a \<Rightarrow> int) \<Rightarrow> 'a list \<Rightarrow> 'a list" where
  "arraySort comparefn xs = rev (foldl (\<lambda>acc x. insertDesc comparefn x acc) [] xs)"

text \<open>
  \<open>this.keys.map(key => this.edits[key])\<close>: every key is one of the object's own, so each
  read finds its entry.
\<close>

definition getAllSorted :: "Edits \<Rightarrow> AutoFix list" where
  "getAllSorted edits = arraySort compareFixes (List.map_filter (map_of edits) (keys edits))"

fun overlapFreeLoop :: "AutoFix \<Rightarrow> AutoFix list \<Rightarrow> AutoFix list \<Rightarrow> AutoFix list" where
  "overlapFreeLoop lastEdit result [] = result"
| "overlapFreeLoop lastEdit result (current # rest) =
     (if \<not> overlaps (Some lastEdit) current
      then overlapFreeLoop current (result @ [current]) rest
      else overlapFreeLoop lastEdit result rest)"

definition getOverlapFree :: "Edits \<Rightarrow> AutoFix list" where
  "getOverlapFree edits =
     (let sorted = getAllSorted edits in
      if length sorted \<le> 1 then sorted
      else (case sorted of
              [] \<Rightarrow> sorted
            | first # rest \<Rightarrow> overlapFreeLoop first [first] rest))"

section \<open>Code actions\<close>

datatype TextEdit = TextEdit_replace LspRange string

text \<open>\<open>Command.create(title, command, uri, documentVersion, edits)\<close>.\<close>

datatype Command =
  Command_create (cmd_title: string) (cmd_command: string) (cmd_uri: string)
    (cmd_documentVersion: int) (cmd_edits: "TextEdit list")

definition createTextEdit :: "TextDocument \<Rightarrow> AutoFix \<Rightarrow> TextEdit" where
  "createTextEdit textDocument editInfo =
     TextEdit_replace
       (Range_create (positionAt textDocument (range0 (edit editInfo)))
                     (positionAt textDocument (range1 (edit editInfo))))
       (edit_text (edit editInfo))"

definition getLastEdit :: "AutoFix list \<Rightarrow> AutoFix option" where
  "getLastEdit array = (if length array = 0 then None else Some (last array))"

text \<open>
  The first loop of the handler, over the scoped fixes: it pushes one command per fix
  and leaves in \<open>documentVersion\<close> and \<open>ruleId\<close> the values of the fix it saw last.
  \<open>ruleId\<close> starts \<open>undefined\<close> (\<open>None\<close>).
\<close>

fun scopedLoop ::
  "string \<Rightarrow> TextDocument \<Rightarrow> AutoFix list \<Rightarrow> Command list \<times> int \<times> string option
     \<Rightarrow> Command list \<times> int \<times> string option" where
  "scopedLoop u textDocument [] acc = acc"
| "scopedLoop u textDocument (editInfo # rest) (result, documentVersion', ruleId') =
     scopedLoop u textDocument rest
       (result @ [Command_create (label editInfo) ''eslint.applySingleFix'' u
                    (documentVersion editInfo) [createTextEdit textDocument editInfo]],
        documentVersion editInfo,
        Some (fix_ruleId editInfo))"

text \<open>The second loop, over all fixes in sorted order, building \<open>same\<close> and \<open>all\<close>.\<close>

fun sameAllLoop ::
  "string option \<Rightarrow> AutoFix list \<Rightarrow> int \<times> AutoFix list \<times> AutoFix list
     \<Rightarrow> int \<times> AutoFix list \<times> AutoFix list" where
  "sameAllLoop ruleId' [] acc = acc"
| "sameAllLoop ruleId' (editInfo # rest) (documentVersion', same, all) =
     sameAllLoop ruleId' rest
       (if documentVersion' = - 1 then documentVersion editInfo else documentVersion',
        if Some (fix_ruleId editInfo) = ruleId' \<and> \<not> overlaps (getLastEdit same) editInfo
        then same @ [editInfo] else same,
        if \<not> overlaps (getLastEdit all) editInfo then all @ [editInfo] else all)"

text \<open>
  \<open>connection.onCodeAction\<close>. \<open>documents.get(uri)\<close> is the argument \<open>textDocument\<close>; the
  closure \<open>createTextEdit\<close> calls a method of it, so with no such document the first
  text edit built throws a TypeError. With no scoped fix no text edit is built and the
  result stays empty.
\<close>

definition onCodeAction ::
  "Registry \<Rightarrow> TextDocument option \<Rightarrow> string \<Rightarrow> Diagnostic list \<Rightarrow> jsError + Command list" where
  "onCodeAction codeActions textDocument u diagnostics =
     (case codeActions u of
        None \<Rightarrow> Inr []
      | Some edits \<Rightarrow>
          if isEmpty edits then Inr []
          else if getScoped edits diagnostics = [] then Inr []
          else
            (case textDocument of
               None \<Rightarrow> Inl TypeError
             | Some doc \<Rightarrow>
                 (case scopedLoop u doc (getScoped edits diagnostics) ([], - 1, None) of
                    (result, documentVersion', ruleId') \<Rightarrow>
                      if length result > 0 then
                        (case sameAllLoop ruleId' (getAllSorted edits) (documentVersion', [], []) of
                           (documentVersion'', same, all) \<Rightarrow>
                             Inr (result
                               @ (if length same > 1
                                  then [Command_create
                                          (''Fix all '' @ (case ruleId' of None \<Rightarrow> ''undefined'' | Some r \<Rightarrow> r) @ '' problems'')
                                          ''eslint.applySameFixes'' u documentVersion''
                                          (map (createTextEdit doc) same)]
                                  else [])
                               @ (if length all > 1
                                  then [Command_create ''Fix all auto-fixable problems''
                                          ''eslint.applyAllFixes'' u documentVersion''
                                          (map (createTextEdit doc) all)]
                                  else [])))
                      else Inr result)))"

text \<open>
  The handler of the all-fixes request. The result object's \<open>documentVersion\<close> is
  evaluated before its \<open>edits\<close>; \<open>createTextEdit\<close> throws when it is called with no
  document open under the URI. \<open>None\<close> is the result \<open>null\<close>.
\<close>

record AllFixesResult =
  result_documentVersion :: int
  result_edits :: "TextEdit list"

definition onAllFixesRequest ::
  "Registry \<Rightarrow> TextDocument option \<Rightarrow> string \<Rightarrow> jsError + AllFixesResult option" where
  "onAllFixesRequest codeActions textDocument u =
     (case codeActions u of
        None \<Rightarrow> Inr None
      | Some edits \<Rightarrow>
          if \<not> isEmpty edits then
            (case getDocumentVersion edits of
               Inl e \<Rightarrow> Inl e
             | Inr v \<Rightarrow>
                 (case textDocument of
                    None \<Rightarrow>
                      if getOverlapFree edits = []
                      then Inr (Some \<lparr> result_documentVersion = v, result_edits = [] \<rparr>)
                      else Inl TypeError
                  | Some doc \<Rightarrow>
                      Inr (Some \<lparr> result_documentVersion = v,
                                  result_edits = map (createTextEdit doc) (getOverlapFree edits) \<rparr>)))
          else Inr None)"

section \<open>Errors thrown by the linter and their messages\<close>

text \<open>
  A value the lint engine throws is an object of the interface \<open>ESLintError\<close> (an \<open>Error\<close>
  with an optional \<open>messageTemplate\<close>): \<open>message\<close> is a string or is absent.
\<close>

record ESLintError =
  messageTemplate :: "string option"
  error_message :: "string option"

text \<open>
  What the handlers use of the libraries they import: \<open>Files.uriToFilePath\<close>, whose result
  is \<open>null\<close> for a URI that names no file, and \<open>Uri.file(filename).toString()\<close>.
\<close>

record Externals =
  uriToFilePath :: "string \<Rightarrow> string nullable"
  fileUri :: "string \<Rightarrow> string"

text \<open>\<open>result.replace(/\r?\n/g, ' ')\<close>.\<close>

fun replaceLineBreaks :: "string \<Rightarrow> string" where
  "replaceLineBreaks [] = []"
| "replaceLineBreaks [c] = (if c = CHR 0x0A then '' '' else [c])"
| "replaceLineBreaks (c # d # rest) =
     (if c = CHR 0x0D \<and> d = CHR 0x0A then CHR '' '' # replaceLineBreaks rest
      else if c = CHR 0x0A then CHR '' '' # replaceLineBreaks (d # rest)
      else c # replaceLineBreaks (d # rest))"

definition getMessage :: "Externals \<Rightarrow> ESLintError \<Rightarrow> TextDocument \<Rightarrow> string" where
  "getMessage ext err document =
     (case error_message err of
        Some m \<Rightarrow>
          (let result = replaceLineBreaks m in
           if prefix ''CLI: '' result then drop 5 result else result)
      | None \<Rightarrow>
          ''An unknown error occured while validating file: ''
          @ toStr (uriToFilePath ext (uri document)))"

subsection \<open>The three patterns of the config-error handler\<close>

text \<open>
  The regular expressions of \<open>tryHandleConfigError\<close> are sequences of literal text and of
  greedy repetitions of one character class, some of them capturing. Strings are lists of
  8-bit characters, so of the line terminators and white space of the language only the
  ones below 256 occur.
\<close>

datatype CharClass = AnyChar | WhiteSpace | NotQuote

datatype RegexItem = Lit string | Rep CharClass nat bool

fun inClass :: "CharClass \<Rightarrow> char \<Rightarrow> bool" where
  "inClass AnyChar c = (c \<noteq> CHR 0x0A \<and> c \<noteq> CHR 0x0D)"
| "inClass WhiteSpace c =
     (c = CHR 0x09 \<or> c = CHR 0x0A \<or> c = CHR 0x0B \<or> c = CHR 0x0C \<or> c = CHR 0x0D
      \<or> c = CHR 0x20 \<or> c = CHR 0xA0)"
| "inClass NotQuote c = (c \<noteq> CHR 0x27)"

fun firstSome :: "'a option list \<Rightarrow> 'a option" where
  "firstSome [] = None"
| "firstSome (None # rest) = firstSome rest"
| "firstSome (Some x # rest) = Some x"

text \<open>
  A match anchored at the start of \<open>s\<close>, by backtracking: \<open>Rep cls lo captured\<close> takes the
  longest run of the class first and gives characters back one at a time, down to \<open>lo\<close>.
  The result lists the captured groups.
\<close>

fun matchHere :: "RegexItem list \<Rightarrow> string \<Rightarrow> string list option" where
  "matchHere [] s = Some []"
| "matchHere (Lit l # items) s =
     (if prefix l s then matchHere items (drop (length l) s) else None)"
| "matchHere (Rep cls lo captured # items) s =
     firstSome
       (map (\<lambda>n. map_option (\<lambda>caps. if captured then take n s # caps else caps)
                   (matchHere items (drop n s)))
            (rev [lo ..< Suc (length (takeWhile (inClass cls) s))]))"

text \<open>\<open>regexp.exec(s)\<close>: the match at the leftmost position that has one.\<close>

fun exec :: "RegexItem list \<Rightarrow> string \<Rightarrow> string list option" where
  "exec items [] = matchHere items []"
| "exec items (c # s) =
     (case matchHere items (c # s) of
        Some caps \<Rightarrow> Some caps
      | None \<Rightarrow> exec items s)"

text \<open>\<open>/Cannot read config file:\s+(.*)\nError:\s+(.*)/\<close>\<close>

definition cannotReadConfig :: "RegexItem list" where
  "cannotReadConfig =
     [Lit ''Cannot read config file:'', Rep WhiteSpace 1 False, Rep AnyChar 0 True,
      Lit (CHR 0x0A # ''Error:''), Rep WhiteSpace 1 False, Rep AnyChar 0 True]"

text \<open>\<open>/(.*):\n\s*Configuration for rule \"(.*)\" is /\<close>\<close>

definition ruleConfiguration :: "RegexItem list" where
  "ruleConfiguration =
     [Rep AnyChar 0 True, Lit ('':'' @ [CHR 0x0A]), Rep WhiteSpace 0 False,
      Lit (''Configuration for rule '' @ [CHR 0x22]), Rep AnyChar 0 True,
      Lit (CHR 0x22 # '' is '')]"

text \<open>\<open>/Cannot find module '([^']*)'\nReferenced from:\s+(.*)/\<close>\<close>

definition cannotFindModule :: "RegexItem list" where
  "cannotFindModule =
     [Lit (''Cannot find module '' @ [CHR 0x27]), Rep NotQuote 0 True,
      Lit (CHR 0x27 # CHR 0x0A # ''Referenced from:''), Rep WhiteSpace 1 False,
      Rep AnyChar 0 True]"

section \<open>Server state\<close>

text \<open>
  A loaded lint library is an object, told apart by the path it was loaded from. The
  process-wide maps of the server and the messages sent over the connection, in order,
  make up the state.
\<close>

datatype ESLintModule = ESLintModule string

datatype Message =
    StatusNotification Status
  | NoConfigRequest string string
  | PublishDiagnostics string "Diagnostic list"
  | ShowErrorMessage string
  | ShowInformationMessage string
  | ConsoleWarn string

text \<open>
  \<open>document2Library\<close> holds a promise per URI; the model keeps the value the promise
  resolves to (\<open>None\<close> for \<open>null\<close>, when the library could not be loaded).
  \<open>openDocuments\<close> is the documents manager's store, read by \<open>documents.get\<close>.
\<close>

record Server =
  codeActions :: Registry
  document2Library :: "string \<rightharpoonup> ESLintModule option"
  noConfigReported :: "string \<rightharpoonup> ESLintModule"
  configErrorReported :: "string \<rightharpoonup> ESLintModule"
  openDocuments :: "string \<rightharpoonup> TextDocument"
  sent :: "Message list"

definition send :: "Message \<Rightarrow> Server \<Rightarrow> Server" where
  "send m s = s\<lparr> sent := sent s @ [m] \<rparr>"

text \<open>
  \<open>supportedLanguages\<close> is an object literal, so a property read also finds what
  \<open>Object.prototype\<close> defines.
\<close>

definition objectPrototypeNames :: "string list" where
  "objectPrototypeNames =
     [''constructor'', ''toString'', ''toLocaleString'', ''valueOf'', ''hasOwnProperty'',
      ''isPrototypeOf'', ''propertyIsEnumerable'', ''__proto__'', ''__defineGetter__'',
      ''__defineSetter__'', ''__lookupGetter__'', ''__lookupSetter__'']"

definition supportedLanguages :: "string \<Rightarrow> bool" where
  "supportedLanguages l =
     (l = ''javascript'' \<or> l = ''javascriptreact'' \<or> l \<in> set objectPrototypeNames)"

definition ignoreTextDocument :: "Server \<Rightarrow> TextDocument \<Rightarrow> bool" where
  "ignoreTextDocument s document =
     (\<not> supportedLanguages (languageId document) \<or> document2Library s (uri document) = None)"

text \<open>The handler the server registers with \<open>documents.onDidClose\<close>.\<close>

definition onDidClose :: "TextDocument \<Rightarrow> Server \<Rightarrow> Server" where
  "onDidClose document s =
     (if ignoreTextDocument s document then s
      else send (PublishDiagnostics (uri document) [])
             (s\<lparr> document2Library := (document2Library s)(uri document := None) \<rparr>))"

text \<open>
  The close event as a whole. The documents manager (\<open>documents.listen(connection)\<close>, of
  the language-server library) takes the closed document out of its store and then
  calls the handler.
\<close>

definition closeDocument :: "TextDocument \<Rightarrow> Server \<Rightarrow> Server" where
  "closeDocument document s =
     onDidClose document (s\<lparr> openDocuments := (openDocuments s)(uri document := None) \<rparr>)"

section \<open>Validation\<close>

text \<open>
  The lint engine is outside the repository: what it does on one call of \<open>validate\<close> is an
  input. The constructor \<open>new library.CLIEngine(options)\<close> may throw, \<open>executeOnText\<close> may
  throw, or a report comes back. The report's parts are optional where \<open>validate\<close> tests
  them.
\<close>

record ESLintDocumentReport =
  messages :: "ESLintProblem option list option"

record ESLintReport =
  results :: "ESLintDocumentReport list option"

datatype EngineOutcome =
    ConstructorThrows ESLintError
  | ExecuteThrows ESLintError
  | Returns "ESLintReport option"

text \<open>The \<open>forEach\<close> over the reported problems.\<close>

fun convertProblems ::
  "TextDocument \<Rightarrow> ESLintProblem option list \<Rightarrow> Diagnostic list \<times> Registry
     \<Rightarrow> Diagnostic list \<times> Registry" where
  "convertProblems document [] acc = acc"
| "convertProblems document (None # rest) acc = convertProblems document rest acc"
| "convertProblems document (Some problem # rest) (diagnostics, reg) =
     convertProblems document rest
       (diagnostics @ [makeDiagnostic problem],
        recordCodeAction document (makeDiagnostic problem) problem reg)"

text \<open>
  \<open>validate\<close> returns the state it leaves behind and, when it throws, the value thrown.
\<close>

definition validate ::
  "TextDocument \<Rightarrow> EngineOutcome \<Rightarrow> Server \<Rightarrow> ESLintError option \<times> Server" where
  "validate document outcome s =
     (case outcome of
        ConstructorThrows err \<Rightarrow> (Some err, s)
      | ExecuteThrows err \<Rightarrow>
          (Some err, s\<lparr> codeActions := (codeActions s)(uri document := None) \<rparr>)
      | Returns report \<Rightarrow>
          (let cleared = (codeActions s)(uri document := None);
               problems =
                 (case report of
                    None \<Rightarrow> []
                  | Some r \<Rightarrow>
                      (case results r of
                         None \<Rightarrow> []
                       | Some [] \<Rightarrow> []
                       | Some (docReport # _) \<Rightarrow>
                           (case messages docReport of None \<Rightarrow> [] | Some ms \<Rightarrow> ms)))
           in (case convertProblems document problems ([], cleared) of
                 (diagnostics, reg) \<Rightarrow>
                   (None, send (PublishDiagnostics (uri document) diagnostics)
                            (s\<lparr> codeActions := reg \<rparr>)))))"

section \<open>Error classifiers\<close>

definition isNoConfigFoundError :: "ESLintError \<Rightarrow> bool" where
  "isNoConfigFoundError err =
     (messageTemplate err = Some ''no-config-found''
      \<or> error_message err = Some ''No ESLint configuration found.'')"

type_synonym Handler =
  "ESLintError \<Rightarrow> TextDocument \<Rightarrow> ESLintModule \<Rightarrow> Server \<Rightarrow> Status option \<times> Server"

definition tryHandleNoConfig :: "Externals \<Rightarrow> Handler" where
  "tryHandleNoConfig ext err document library s =
     (if \<not> isNoConfigFoundError err then (None, s)
      else if noConfigReported s (uri document) = None then
        (Some StatusWarn,
         (send (NoConfigRequest (getMessage ext err document) (uri document)) s)
           \<lparr> noConfigReported := (noConfigReported s)(uri document \<mapsto> library) \<rparr>)
      else (Some StatusWarn, s))"

definition handleFileName ::
  "Externals \<Rightarrow> ESLintError \<Rightarrow> TextDocument \<Rightarrow> ESLintModule \<Rightarrow> string \<Rightarrow> Server
     \<Rightarrow> Status option \<times> Server" where
  "handleFileName ext err document library filename s =
     (if configErrorReported s filename = None then
        (let s1 = send (ConsoleWarn (getMessage ext err document)) s;
             s2 = (if openDocuments s1 (fileUri ext filename) = None
                   then send (ShowInformationMessage (getMessage ext err document)) s1
                   else s1)
         in (Some StatusWarn,
             s2\<lparr> configErrorReported := (configErrorReported s2)(filename \<mapsto> library) \<rparr>))
      else (Some StatusWarn, s))"

text \<open>
  \<open>matches && matches.length === 3\<close>: a match with its two groups, \<open>matches[1]\<close> and
  \<open>matches[2]\<close>.
\<close>

definition matched :: "string list option \<Rightarrow> (string \<times> string) option" where
  "matched matches = (case matches of Some [g1, g2] \<Rightarrow> Some (g1, g2) | _ \<Rightarrow> None)"

definition tryHandleConfigError :: "Externals \<Rightarrow> Handler" where
  "tryHandleConfigError ext err document library s =
     (case error_message err of
        None \<Rightarrow> (None, s)
      | Some m \<Rightarrow>
          if m = [] then (None, s)
          else
            (case matched (exec cannotReadConfig m) of
               Some (g1, g2) \<Rightarrow> handleFileName ext err document library g1 s
             | None \<Rightarrow>
                 (case matched (exec ruleConfiguration m) of
                    Some (g1, g2) \<Rightarrow> handleFileName ext err document library g1 s
                  | None \<Rightarrow>
                      (case matched (exec cannotFindModule m) of
                         Some (g1, g2) \<Rightarrow> handleFileName ext err document library g2 s
                       | None \<Rightarrow> (None, s)))))"

definition showErrorMessage :: "Externals \<Rightarrow> Handler" where
  "showErrorMessage ext err document library s =
     (Some StatusError, send (ShowErrorMessage (getMessage ext err document)) s)"

definition singleErrorHandlers :: "Externals \<Rightarrow> Handler list" where
  "singleErrorHandlers ext =
     [tryHandleNoConfig ext, tryHandleConfigError ext, showErrorMessage ext]"

definition manyErrorHandlers :: "Externals \<Rightarrow> Handler list" where
  "manyErrorHandlers ext = [tryHandleNoConfig ext, tryHandleConfigError ext]"

text \<open>
  The loop \<open>for (let handler of handlers) { status = handler(...); if (status) break; }\<close>:
  every status is truthy, so the loop stops at the first handler that returns one, and
  leaves \<open>undefined\<close> when none does.
\<close>

fun runHandlers :: "Handler list \<Rightarrow> Handler" where
  "runHandlers [] err document library s = (None, s)"
| "runHandlers (handler # rest) err document library s =
     (case handler err document library s of
        (Some status, s') \<Rightarrow> (Some status, s')
      | (None, s') \<Rightarrow> runHandlers rest err document library s')"

section \<open>Single-document validation\<close>

text \<open>
  The continuation of \<open>document2Library[document.uri].then\<close>; \<open>library\<close> is the value the
  promise resolved to.
\<close>

definition validateSingle ::
  "Externals \<Rightarrow> TextDocument \<Rightarrow> ESLintModule option \<Rightarrow> EngineOutcome \<Rightarrow> Server \<Rightarrow> Server" where
  "validateSingle ext document library outcome s =
     (case library of
        None \<Rightarrow> s
      | Some lib \<Rightarrow>
          (case validate document outcome s of
             (None, s1) \<Rightarrow> send (StatusNotification StatusOk) s1
           | (Some err, s1) \<Rightarrow>
               (case runHandlers (singleErrorHandlers ext) err document lib s1 of
                  (status, s2) \<Rightarrow>
                    send (StatusNotification
                            (case status of None \<Rightarrow> StatusError | Some st \<Rightarrow> st)) s2)))"

section \<open>Batch validation\<close>

text \<open>
  Modelled from the spec: the class \<open>ErrorMessageTracker\<close> of the language-server library,
  which is not among the sources. It accumulates messages, keeping one of each, and
  \<open>sendErrors\<close> shows every message it holds as an error.
\<close>

definition trackerAdd :: "string \<Rightarrow> string list \<Rightarrow> string list" where
  "trackerAdd m tracker = (if m \<in> set tracker then tracker else tracker @ [m])"

definition sendErrors :: "string list \<Rightarrow> Server \<Rightarrow> Server" where
  "sendErrors tracker s = s\<lparr> sent := sent s @ map ShowErrorMessage tracker \<rparr>"

text \<open>
  One per-document attempt of \<open>validateMany\<close>: the continuation registered for the
  document. \<open>s0\<close> is the state when \<open>validateMany\<close> was called, which decides whether the
  document is ignored and which promise is waited for; \<open>tracker\<close> and \<open>status\<close> are the
  local variables the continuations share.
\<close>

definition validateManyAttempt ::
  "Externals \<Rightarrow> Server \<Rightarrow> Server \<times> string list \<times> Status option
     \<Rightarrow> TextDocument \<times> EngineOutcome \<Rightarrow> Server \<times> string list \<times> Status option" where
  "validateManyAttempt ext s0 acc attempt =
     (case (acc, attempt) of
        ((s, tracker, status), (document, outcome)) \<Rightarrow>
          if ignoreTextDocument s0 document then (s, tracker, status)
          else
            (case document2Library s0 (uri document) of
               None \<Rightarrow> (s, tracker, status)
             | Some None \<Rightarrow> (s, tracker, status)
             | Some (Some library) \<Rightarrow>
                 (case validate document outcome s of
                    (None, s1) \<Rightarrow> (s1, tracker, status)
                  | (Some err, s1) \<Rightarrow>
                      (case runHandlers (manyErrorHandlers ext) err document library s1 of
                         (Some st, s2) \<Rightarrow> (s2, tracker, Some st)
                       | (None, s2) \<Rightarrow>
                           (s2, trackerAdd (getMessage ext err document) tracker,
                            Some StatusError)))))"

text \<open>
  \<open>validateMany\<close>: \<open>attempts\<close> lists the documents, each with what the engine does on it,
  in the order in which their continuations run. When all have run, the tracker is
  flushed and the status is published.
\<close>

definition validateMany ::
  "Externals \<Rightarrow> (TextDocument \<times> EngineOutcome) list \<Rightarrow> Server \<Rightarrow> Server" where
  "validateMany ext attempts s0 =
     (case foldl (validateManyAttempt ext s0) (s0, [], None) attempts of
        (s, tracker, status) \<Rightarrow>
          send (StatusNotification (case status of None \<Rightarrow> StatusOk | Some st \<Rightarrow> st))
            (sendErrors tracker s))"

section \<open>Events\<close>

text \<open>
  The events that run the code above: a single-document validation (a change or a save
  of the document), a batch validation, and the closing of a document. The
  watched-file change, which empties \<open>noConfigReported\<close>, is not among them.
\<close>

datatype Event =
    ValidateSingleEvent TextDocument "ESLintModule option" EngineOutcome
  | ValidateManyEvent "(TextDocument \<times> EngineOutcome) list"
  | DidCloseEvent TextDocument

fun handleEvent :: "Externals \<Rightarrow> Server \<Rightarrow> Event \<Rightarrow> Server" where
  "handleEvent ext s (ValidateSingleEvent document library outcome) =
     validateSingle ext document library outcome s"
| "handleEvent ext s (ValidateManyEvent attempts) = validateMany ext attempts s"
| "handleEvent ext s (DidCloseEvent document) = closeDocument document s"

definition handleEvents :: "Externals \<Rightarrow> Event list \<Rightarrow> Server \<Rightarrow> Server" where
  "handleEvents ext events s = foldl (handleEvent ext) s events"

section \<open>The specification's wording, for comparison with the code\<close>

text \<open>Position conversion as the specification words it: subtract one, floor at zero.\<close>

definition toZeroBased :: "int \<Rightarrow> int" where
  "toZeroBased n = (if n - 1 < 0 then 0 else n - 1)"

text \<open>
  The order of \<open>sortedAll\<close> as the specification words it: ascending start offset; on
  equal starts an end offset of 0 goes before a nonzero one; otherwise ascending end
  offset.
\<close>

definition fixOrder :: "AutoFix \<Rightarrow> AutoFix \<Rightarrow> bool" where
  "fixOrder a b =
     (range0 (edit a) < range0 (edit b)
      \<or> (range0 (edit a) = range0 (edit b)
          \<and> (if range1 (edit a) = 0 \<and> range1 (edit b) \<noteq> 0 then True
              else if range1 (edit a) \<noteq> 0 \<and> range1 (edit b) = 0 then False
              else range1 (edit a) \<le> range1 (edit b))))"

text \<open>
  The greedy left-to-right scan as the specification words it: keep the first edit; keep a
  later edit iff the end offset of the most recently kept edit is not strictly greater
  than its start offset.
\<close>

fun keepFrom :: "AutoFix \<Rightarrow> AutoFix list \<Rightarrow> AutoFix list" where
  "keepFrom kept [] = []"
| "keepFrom kept (e # es) =
     (if \<not> (range1 (edit kept) > range0 (edit e)) then e # keepFrom e es
      else keepFrom kept es)"

definition greedyNonOverlapping :: "AutoFix list \<Rightarrow> AutoFix list" where
  "greedyNonOverlapping xs = (case xs of [] \<Rightarrow> [] | x # rest \<Rightarrow> x # keepFrom x rest)"

text \<open>The same scan over the edits of one rule only.\<close>

definition sameRuleSelection :: "string \<Rightarrow> AutoFix list \<Rightarrow> AutoFix list" where
  "sameRuleSelection r xs = greedyNonOverlapping (filter (\<lambda>e. fix_ruleId e = r) xs)"

text \<open>
  The scoped selection as the specification words it: for each context diagnostic, in
  their order, the fix stored under its key if there is one. And the last context
  diagnostic whose key has an entry.
\<close>

definition scopedSelection :: "Edits \<Rightarrow> Diagnostic list \<Rightarrow> AutoFix list" where
  "scopedSelection edits diagnostics =
     concat (map (\<lambda>d. case map_of edits (computeKey d) of None \<Rightarrow> [] | Some f \<Rightarrow> [f])
                 diagnostics)"

definition lastMatching :: "Edits \<Rightarrow> Diagnostic list \<Rightarrow> Diagnostic option" where
  "lastMatching edits diagnostics =
     List.find (\<lambda>d. computeKey d \<in> fst ` set edits) (rev diagnostics)"



section \<open>Observations on the state\<close>

fun isStatusNotification :: "Message \<Rightarrow> bool" where
  "isStatusNotification (StatusNotification st) = True"
| "isStatusNotification m = False"



fun isInformationMessage :: "Message \<Rightarrow> bool" where
  "isInformationMessage (ShowInformationMessage m) = True"
| "isInformationMessage m = False"

text \<open>
  Two states that differ at most in the library map, in the documents store and in the
  messages already sent, and a step that treats two such states alike: it returns the
  same value from both, sends the same messages but for information messages, and leaves
  them differing no more than before.
\<close>

definition sameButLibraries :: "Server \<Rightarrow> Server \<Rightarrow> bool" where
  "sameButLibraries s t =
     (codeActions s = codeActions t \<and> noConfigReported s = noConfigReported t
      \<and> configErrorReported s = configErrorReported t)"

definition framed :: "(Server \<Rightarrow> 'a \<times> Server) \<Rightarrow> bool" where
  "framed f =
     (\<forall>s t. sameButLibraries s t \<longrightarrow>
        fst (f s) = fst (f t)
        \<and> sameButLibraries (snd (f s)) (snd (f t))
        \<and> (\<exists>ms ms'. sent (snd (f s)) = sent s @ ms \<and> sent (snd (f t)) = sent t @ ms'
              \<and> filter (\<lambda>m. \<not> isInformationMessage m) ms
                  = filter (\<lambda>m. \<not> isInformationMessage m) ms'))"

section \<open>Concrete inputs\<close>

definition scenarioA :: ESLintProblem where
  "scenarioA = \<lparr> line = 5, column = 3, endLine = None, endColumn = None, severity = 1,
       ruleId = Value ''no-unused-vars'',
       message = CHR 0x27 # ''x'' @ CHR 0x27 # '' is defined but never used'',
       problem_fix = None \<rparr>"

text \<open>
  \<open>positionAt\<close> of a document of one line: the offset, clamped to the text, is the
  character.
\<close>

definition singleLine :: "string \<Rightarrow> int \<Rightarrow> Position" where
  "singleLine t i = Position_create 0 (max 0 (min i (int (length t))))"

definition docA :: TextDocument where
  "docA = \<lparr> uri = ''file:///a.js'', languageId = ''javascript'', version = 7,
            getText = ''var x;;;'', positionAt = singleLine ''var x;;;'' \<rparr>"

definition docB :: TextDocument where
  "docB = \<lparr> uri = ''file:///b.js'', languageId = ''javascript'', version = 1,
            getText = ''var y'', positionAt = singleLine ''var y'' \<rparr>"

definition docPy :: TextDocument where
  "docPy = \<lparr> uri = ''file:///c.py'', languageId = ''python'', version = 1,
            getText = ''x = 1'', positionAt = singleLine ''x = 1'' \<rparr>"

definition semiProblem :: "string \<Rightarrow> ESLintProblem" where
  "semiProblem t = \<lparr> line = 1, column = 7, endLine = None, endColumn = None, severity = 2,
       ruleId = Value ''no-extra-semi'', message = ''Unnecessary semicolon.'',
       problem_fix = Some \<lparr> range0 = 6, range1 = 7, edit_text = t \<rparr> \<rparr>"

definition mkFix :: "string \<Rightarrow> int \<Rightarrow> int \<Rightarrow> AutoFix" where
  "mkFix r s e = \<lparr> label = ''Fix this '' @ r @ '' problem'', documentVersion = 7,
                   fix_ruleId = r,
                   edit = \<lparr> range0 = s, range1 = e, edit_text = [] \<rparr> \<rparr>"

definition sampleEdits :: Edits where
  "sampleEdits =
     [(''k1'', mkFix ''semi'' 15 25), (''k2'', mkFix ''quotes'' 10 20),
      (''k3'', mkFix ''semi'' 0 3), (''k4'', mkFix ''semi'' 0 0), (''k5'', mkFix ''semi'' 20 22)]"

text \<open>
  A registry as \<open>validate\<close> fills it: three problems of one document, recorded in the
  order the linter reports them.
\<close>

definition fixable :: "int \<Rightarrow> string \<Rightarrow> int \<Rightarrow> int \<Rightarrow> ESLintProblem" where
  "fixable col r s e =
     \<lparr> line = 1, column = col, endLine = None, endColumn = None, severity = 2,
       ruleId = Value r, message = ''m'',
       problem_fix = Some \<lparr> range0 = s, range1 = e, edit_text = [] \<rparr> \<rparr>"

definition sampleProblems :: "ESLintProblem list" where
  "sampleProblems =
     [fixable 7 ''no-extra-semi'' 6 7, fixable 8 ''no-extra-semi'' 7 8, fixable 1 ''no-var'' 0 3]"

definition sampleRegistry :: Registry where
  "sampleRegistry =
     foldl (\<lambda>reg p. recordCodeAction docA (makeDiagnostic p) p reg) Map.empty sampleProblems"

definition semiFix :: "int \<Rightarrow> int \<Rightarrow> AutoFix" where
  "semiFix s e = \<lparr> label = ''Fix this no-extra-semi problem'', documentVersion = 7,
                   fix_ruleId = ''no-extra-semi'',
                   edit = \<lparr> range0 = s, range1 = e, edit_text = [] \<rparr> \<rparr>"

definition noVarFix :: AutoFix where
  "noVarFix = \<lparr> label = ''Fix this no-var problem'', documentVersion = 7,
                fix_ruleId = ''no-var'',
                edit = \<lparr> range0 = 0, range1 = 3, edit_text = [] \<rparr> \<rparr>"

definition sampleRegistryEdits :: Edits where
  "sampleRegistryEdits =
     [(''[0,6,0,6]-no-extra-semi'', semiFix 6 7),
      (''[0,7,0,7]-no-extra-semi'', semiFix 7 8),
      (''[0,0,0,0]-no-var'', noVarFix)]"

text \<open>
  The diagnostics in context: of the \<open>no-var\<close> problem, of the first \<open>no-extra-semi\<close>
  problem, and of a problem that has no fix.
\<close>

definition sampleContext :: "Diagnostic list" where
  "sampleContext =
     [makeDiagnostic (fixable 1 ''no-var'' 0 3), makeDiagnostic (fixable 7 ''no-extra-semi'' 6 7),
      makeDiagnostic scenarioA]"

definition sampleExt :: Externals where
  "sampleExt =
     \<lparr> uriToFilePath = (\<lambda>u. if prefix ''file://'' u then Value (drop 7 u) else Null),
       fileUri = (\<lambda>f. ''file://'' @ f) \<rparr>"

definition sampleLibrary :: ESLintModule where
  "sampleLibrary = ESLintModule ''/node_modules/eslint''"

definition sampleServer :: Server where
  "sampleServer =
     \<lparr> codeActions = sampleRegistry,
       document2Library = [''file:///a.js'' \<mapsto> Some sampleLibrary,
                           ''file:///b.js'' \<mapsto> Some sampleLibrary],
       noConfigReported = Map.empty,
       configErrorReported = Map.empty,
       openDocuments = [''file:///a.js'' \<mapsto> docA, ''file:///b.js'' \<mapsto> docB],
       sent = [] \<rparr>"

definition noConfigError :: ESLintError where
  "noConfigError = \<lparr> messageTemplate = Some ''no-config-found'',
                      error_message = Some ''No ESLint configuration found.'' \<rparr>"

definition genericError :: ESLintError where
  "genericError = \<lparr> messageTemplate = None, error_message = Some ''Unexpected token'' \<rparr>"


definition configError :: ESLintError where
  "configError =
     \<lparr> messageTemplate = None,
       error_message = Some (''Cannot read config file: /a.js'' @ [CHR 0x0A] @ ''Error: bad'') \<rparr>"

section \<open>The diagnostic converter\<close>

text \<open>
  Claim C8. \<open>makeDiagnostic\<close> is a total function of the problem: severity 1 becomes
  \<open>Warning\<close> and every other severity \<open>Error\<close>; the line and the column are converted by
  subtracting one and flooring at zero; an end line or end column that is missing takes
  the converted start line or start column, and one that is present is converted the
  same way; the message is followed by the rule id in parentheses when the rule id is
  present; the source is \<open>eslint\<close> and the code is the rule id.
\<close>

theorem makeDiagnostic_converts:
  "d_severity (makeDiagnostic p) = (if severity p = 1 then Warning else Error)
   \<and> d_range (makeDiagnostic p) =
       Range_create
         (Position_create (toZeroBased (line p)) (toZeroBased (column p)))
         (Position_create
            (case endLine p of None \<Rightarrow> toZeroBased (line p) | Some e \<Rightarrow> toZeroBased e)
            (case endColumn p of None \<Rightarrow> toZeroBased (column p) | Some e \<Rightarrow> toZeroBased e))
   \<and> d_message (makeDiagnostic p) =
       (case ruleId p of
          Value r \<Rightarrow> message p @ '' ('' @ r @ '')''
        | Null \<Rightarrow> message p
        | Undefined \<Rightarrow> message p)
   \<and> d_source (makeDiagnostic p) = ''eslint''
   \<and> d_code (makeDiagnostic p) = ruleId p"
  by (simp add: makeDiagnostic_def convertSeverity_def toZeroBased_def Let_def max_def
      split: option.split nullable.split)

text \<open>The specification's scenario A, through the theorem.\<close>

theorem makeDiagnostic_converts_witness:
  "d_severity (makeDiagnostic scenarioA) = Warning
   \<and> d_range (makeDiagnostic scenarioA) = Range_create (Position_create 4 2) (Position_create 4 2)
   \<and> d_message (makeDiagnostic scenarioA) =
        CHR 0x27 # ''x'' @ CHR 0x27 # '' is defined but never used (no-unused-vars)''
   \<and> d_source (makeDiagnostic scenarioA) = ''eslint''
   \<and> d_code (makeDiagnostic scenarioA) = Value ''no-unused-vars''"
  using makeDiagnostic_converts [of scenarioA]
  by (simp add: scenarioA_def toZeroBased_def)

section \<open>The fix registry\<close>

lemma computeKey_cong:
  "d_range d1 = d_range d2 \<Longrightarrow> d_code d1 = d_code d2 \<Longrightarrow> computeKey d1 = computeKey d2"
  by (simp add: computeKey_def split: LspRange.split Position.split)

lemma makeDiagnostic_code: "d_code (makeDiagnostic p) = ruleId p"
  by (simp add: makeDiagnostic_def Let_def)

text \<open>Decimal numerals are told apart, and hold no comma, bracket or inner minus sign.\<close>

lemma digit_code: "k < 10 \<Longrightarrow> of_char (char_of (48 + k :: nat)) = (48 + k :: nat)"
  by (simp add: of_char_of)

lemma digit_inj: "k < 10 \<Longrightarrow> j < 10 \<Longrightarrow> char_of (48 + k :: nat) = char_of (48 + j :: nat) \<Longrightarrow> k = j"
proof -
  assume a: "k < 10" "j < 10" "char_of (48 + k :: nat) = char_of (48 + j :: nat)"
  then have "(of_char (char_of (48 + k :: nat)) :: nat) = of_char (char_of (48 + j :: nat))" by simp
  with a show "k = j" by (simp add: digit_code)
qed

lemma digit_not: "k < 10 \<Longrightarrow> c \<in> {CHR '','', CHR '']'', CHR ''-''} \<Longrightarrow> char_of (48 + k :: nat) \<noteq> c"
proof
  assume a: "k < 10" "c \<in> {CHR '','', CHR '']'', CHR ''-''}" "char_of (48 + k :: nat) = c"
  then have "(of_char c :: nat) = 48 + k" using digit_code [of k] by simp
  with a(1,2) show False by auto
qed

lemma showNat_nonempty: "showNat n \<noteq> []"
  by (subst showNat.simps) simp

lemma showNat_chars: "c \<in> {CHR '','', CHR '']'', CHR ''-''} \<Longrightarrow> c \<notin> set (showNat n)"
proof (induction n rule: showNat.induct)
  case (1 n)
  show ?case
  proof (cases "n < 10")
    case True
    then show ?thesis using digit_not [of n c] 1(2) by (subst showNat.simps) auto
  next
    case False
    have "n mod 10 < 10" by simp
    then have "char_of (48 + n mod 10) \<noteq> c" using digit_not [of "n mod 10" c] 1(2) by blast
    with False 1 show ?thesis by (subst showNat.simps) auto
  qed
qed

lemma showNat_inj: "showNat n = showNat m \<Longrightarrow> n = m"
proof (induction n arbitrary: m rule: showNat.induct)
  case (1 n)
  show ?case
  proof (cases "n < 10")
    case True
    note n = True
    show ?thesis
    proof (cases "m < 10")
      case True
      with n 1(2) show ?thesis
        using digit_inj [of n m] by (simp add: showNat.simps [of n] showNat.simps [of m])
    next
      case False
      with n 1(2) show ?thesis
        using showNat_nonempty [of "m div 10"]
        by (simp add: showNat.simps [of n] showNat.simps [of m])
    qed
  next
    case False
    note n = False
    show ?thesis
    proof (cases "m < 10")
      case True
      with n 1(2) show ?thesis
        using showNat_nonempty [of "n div 10"]
        by (simp add: showNat.simps [of n] showNat.simps [of m])
    next
      case False
      with n 1(2) have e: "showNat (n div 10) = showNat (m div 10)"
        and l: "char_of (48 + n mod 10) = char_of (48 + m mod 10)"
        by (simp_all add: showNat.simps [of n] showNat.simps [of m])
      have "n div 10 = m div 10" using 1(1) n e by blast
      moreover have "n mod 10 = m mod 10" using digit_inj [of "n mod 10" "m mod 10"] l by simp
      ultimately show ?thesis by (metis div_mult_mod_eq)
    qed
  qed
qed

lemma showNat_no_minus: "hd (showNat n) \<noteq> CHR ''-''"
  using showNat_chars [of "CHR ''-''" n] showNat_nonempty [of n]
  by (cases "showNat n") auto

lemma showInt_inj: "showInt i = showInt j \<Longrightarrow> i = j"
proof -
  assume a: "showInt i = showInt j"
  show ?thesis
  proof (cases "i < 0")
    case True
    note i = True
    show ?thesis
    proof (cases "j < 0")
      case True
      with i a have "nat (- i) = nat (- j)" by (simp add: showInt_def showNat_inj)
      with i True show ?thesis by simp
    next
      case False
      with i a have "showNat (nat j) = CHR ''-'' # showNat (nat (- i))" by (simp add: showInt_def)
      then have "hd (showNat (nat j)) = CHR ''-''" by simp
      with showNat_no_minus show ?thesis by blast
    qed
  next
    case False
    note i = False
    show ?thesis
    proof (cases "j < 0")
      case True
      with i a have "showNat (nat i) = CHR ''-'' # showNat (nat (- j))" by (simp add: showInt_def)
      then have "hd (showNat (nat i)) = CHR ''-''" by simp
      with showNat_no_minus show ?thesis by blast
    next
      case False
      with i a have "nat i = nat j" by (simp add: showInt_def showNat_inj)
      with i False show ?thesis by simp
    qed
  qed
qed

lemma showInt_chars: "c \<in> {CHR '','', CHR '']''} \<Longrightarrow> c \<notin> set (showInt i)"
  using showNat_chars [of c] by (auto simp: showInt_def)

lemma split_at_separator:
  "c \<notin> set a \<Longrightarrow> c \<notin> set b \<Longrightarrow> a @ c # r = b @ c # t \<Longrightarrow> a = b \<and> r = t"
proof (induction a arbitrary: b)
  case Nil
  then show ?case by (cases b) auto
next
  case (Cons x xs)
  then show ?case by (cases b) auto
qed

lemma computeKey_inj:
  assumes "computeKey d1 = computeKey d2"
  shows "d_range d1 = d_range d2 \<and> toStr (d_code d1) = toStr (d_code d2)"
proof -
  obtain sl sc el ec where r1: "d_range d1 = Range_create (Position_create sl sc) (Position_create el ec)"
    by (metis LspRange.exhaust Position.exhaust)
  obtain sl' sc' el' ec' where r2: "d_range d2 = Range_create (Position_create sl' sc') (Position_create el' ec')"
    by (metis LspRange.exhaust Position.exhaust)
  have e0: "showInt sl @ CHR '','' # (showInt sc @ CHR '','' # (showInt el @ CHR '','' # (showInt ec @ CHR '']'' # (CHR ''-'' # toStr (d_code d1)))))
          = showInt sl' @ CHR '','' # (showInt sc' @ CHR '','' # (showInt el' @ CHR '','' # (showInt ec' @ CHR '']'' # (CHR ''-'' # toStr (d_code d2)))))"
    using assms r1 r2 by (simp add: computeKey_def)
  have c: "\<And>i. CHR '','' \<notin> set (showInt i)" "\<And>i. CHR '']'' \<notin> set (showInt i)"
    using showInt_chars by simp_all
  from split_at_separator [OF c(1) c(1) e0] have a1: "showInt sl = showInt sl'"
    and e1: "showInt sc @ CHR '','' # (showInt el @ CHR '','' # (showInt ec @ CHR '']'' # (CHR ''-'' # toStr (d_code d1))))
          = showInt sc' @ CHR '','' # (showInt el' @ CHR '','' # (showInt ec' @ CHR '']'' # (CHR ''-'' # toStr (d_code d2))))"
    by simp_all
  from split_at_separator [OF c(1) c(1) e1] have a2: "showInt sc = showInt sc'"
    and e2: "showInt el @ CHR '','' # (showInt ec @ CHR '']'' # (CHR ''-'' # toStr (d_code d1)))
          = showInt el' @ CHR '','' # (showInt ec' @ CHR '']'' # (CHR ''-'' # toStr (d_code d2)))"
    by simp_all
  from split_at_separator [OF c(1) c(1) e2] have a3: "showInt el = showInt el'"
    and e3: "showInt ec @ CHR '']'' # (CHR ''-'' # toStr (d_code d1))
          = showInt ec' @ CHR '']'' # (CHR ''-'' # toStr (d_code d2))"
    by simp_all
  from split_at_separator [OF c(2) c(2) e3] have a4: "showInt ec = showInt ec'"
    and e4: "toStr (d_code d1) = toStr (d_code d2)"
    by simp_all
  from a1 a2 a3 a4 have "sl = sl'" "sc = sc'" "el = el'" "ec = ec'"
    by (simp_all add: showInt_inj)
  with r1 r2 e4 show ?thesis by simp
qed

text \<open>
  Claim C9. The key of a diagnostic is determined by its range and its code: diagnostics
  with the same range and code have the same key, and diagnostics with the same key have
  the same range and the same printed code (an absent code prints as \<open>undefined\<close> or
  \<open>null\<close>). So two problems whose diagnostics have the same range and that have the same
  rule id get the same key. When two problems that both carry an edit and a non-empty
  rule id are recorded for one URI under one key, the registry is the one that recording
  the second alone gives, and the entry under the key is the second's. Recording a
  problem with no edit, or with a rule id that is absent or empty, leaves the registry as
  it was.
\<close>

theorem computeKey_recordCodeAction:
  "(d_range d1 = d_range d2 \<and> d_code d1 = d_code d2 \<longrightarrow> computeKey d1 = computeKey d2)
   \<and> (computeKey d1 = computeKey d2
        \<longrightarrow> d_range d1 = d_range d2 \<and> toStr (d_code d1) = toStr (d_code d2))
   \<and> (d_range (makeDiagnostic p1) = d_range (makeDiagnostic p2) \<and> ruleId p1 = ruleId p2
        \<longrightarrow> computeKey (makeDiagnostic p1) = computeKey (makeDiagnostic p2))
   \<and> (problem_fix p1 = Some f1 \<and> ruleId p1 = Value r1 \<and> r1 \<noteq> []
        \<and> problem_fix p2 = Some f2 \<and> ruleId p2 = Value r2 \<and> r2 \<noteq> []
        \<and> uri doc1 = uri doc2 \<and> computeKey d1 = computeKey d2
        \<longrightarrow> recordCodeAction doc2 d2 p2 (recordCodeAction doc1 d1 p1 reg)
              = recordCodeAction doc2 d2 p2 reg
            \<and> (\<exists>edits. recordCodeAction doc2 d2 p2 (recordCodeAction doc1 d1 p1 reg) (uri doc2)
                          = Some edits
                 \<and> map_of edits (computeKey d2)
                     = Some \<lparr> label = ''Fix this '' @ r2 @ '' problem'',
                              documentVersion = version doc2, fix_ruleId = r2, edit = f2 \<rparr>))
   \<and> (problem_fix p = None \<or> \<not> truthy (ruleId p) \<longrightarrow> recordCodeAction doc d p reg = reg)"
proof (intro conjI impI)
  assume "d_range d1 = d_range d2 \<and> d_code d1 = d_code d2"
  then show "computeKey d1 = computeKey d2" by (intro computeKey_cong) simp_all
next
  assume "computeKey d1 = computeKey d2"
  then show "d_range d1 = d_range d2" "toStr (d_code d1) = toStr (d_code d2)"
    using computeKey_inj by blast+
next
  assume "d_range (makeDiagnostic p1) = d_range (makeDiagnostic p2) \<and> ruleId p1 = ruleId p2"
  then show "computeKey (makeDiagnostic p1) = computeKey (makeDiagnostic p2)"
    by (intro computeKey_cong) (simp_all add: makeDiagnostic_code)
next
  assume a: "problem_fix p1 = Some f1 \<and> ruleId p1 = Value r1 \<and> r1 \<noteq> []
        \<and> problem_fix p2 = Some f2 \<and> ruleId p2 = Value r2 \<and> r2 \<noteq> []
        \<and> uri doc1 = uri doc2 \<and> computeKey d1 = computeKey d2"
  then show "recordCodeAction doc2 d2 p2 (recordCodeAction doc1 d1 p1 reg)
              = recordCodeAction doc2 d2 p2 reg"
    by (simp add: recordCodeAction_def)
  from a show "\<exists>edits. recordCodeAction doc2 d2 p2 (recordCodeAction doc1 d1 p1 reg) (uri doc2)
                          = Some edits
                 \<and> map_of edits (computeKey d2)
                     = Some \<lparr> label = ''Fix this '' @ r2 @ '' problem'',
                              documentVersion = version doc2, fix_ruleId = r2, edit = f2 \<rparr>"
    by (simp add: recordCodeAction_def AList.update_conv')
next
  assume "problem_fix p = None \<or> \<not> truthy (ruleId p)"
  then show "recordCodeAction doc d p reg = reg"
    by (auto simp: recordCodeAction_def truthy_def split: option.split nullable.split)
qed

theorem computeKey_recordCodeAction_witness:
  "computeKey (makeDiagnostic (semiProblem ''a'')) = computeKey (makeDiagnostic (semiProblem ''b''))
   \<and> recordCodeAction docA (makeDiagnostic (semiProblem ''b'')) (semiProblem ''b'')
        (recordCodeAction docA (makeDiagnostic (semiProblem ''a'')) (semiProblem ''a'') Map.empty)
      = recordCodeAction docA (makeDiagnostic (semiProblem ''b'')) (semiProblem ''b'') Map.empty
   \<and> (\<exists>edits. recordCodeAction docA (makeDiagnostic (semiProblem ''b'')) (semiProblem ''b'')
        (recordCodeAction docA (makeDiagnostic (semiProblem ''a'')) (semiProblem ''a'') Map.empty)
          (uri docA) = Some edits
        \<and> map_of edits (computeKey (makeDiagnostic (semiProblem ''b'')))
            = Some \<lparr> label = ''Fix this '' @ ''no-extra-semi'' @ '' problem'',
                     documentVersion = version docA,
                     fix_ruleId = ''no-extra-semi'',
                     edit = \<lparr> range0 = 6, range1 = 7, edit_text = ''b'' \<rparr> \<rparr>)
   \<and> recordCodeAction docA (makeDiagnostic (semiProblem ''a''))
        ((semiProblem ''a'')\<lparr> ruleId := Null \<rparr>) Map.empty = Map.empty"
proof -
  note T = computeKey_recordCodeAction
      [where ?d1.0 = "makeDiagnostic (semiProblem ''a'')" and ?d2.0 = "makeDiagnostic (semiProblem ''b'')"
       and ?p1.0 = "semiProblem ''a''" and ?p2.0 = "semiProblem ''b''"
       and ?f1.0 = "\<lparr> range0 = 6, range1 = 7, edit_text = ''a'' \<rparr>" and ?r1.0 = "''no-extra-semi''"
       and ?f2.0 = "\<lparr> range0 = 6, range1 = 7, edit_text = ''b'' \<rparr>" and ?r2.0 = "''no-extra-semi''"
       and ?doc1.0 = docA and ?doc2.0 = docA and reg = Map.empty
       and p = "(semiProblem ''a'')\<lparr> ruleId := Null \<rparr>" and doc = docA
       and d = "makeDiagnostic (semiProblem ''a'')"]
  have s: "d_range (makeDiagnostic (semiProblem ''a'')) = d_range (makeDiagnostic (semiProblem ''b''))
           \<and> ruleId (semiProblem ''a'') = ruleId (semiProblem ''b'')"
    by (simp add: semiProblem_def makeDiagnostic_def Let_def)
  have k: "computeKey (makeDiagnostic (semiProblem ''a'')) = computeKey (makeDiagnostic (semiProblem ''b''))"
    using T s by blast
  have h: "problem_fix (semiProblem ''a'') = Some \<lparr> range0 = 6, range1 = 7, edit_text = ''a'' \<rparr>
      \<and> ruleId (semiProblem ''a'') = Value ''no-extra-semi'' \<and> ''no-extra-semi'' \<noteq> []
      \<and> problem_fix (semiProblem ''b'') = Some \<lparr> range0 = 6, range1 = 7, edit_text = ''b'' \<rparr>
      \<and> ruleId (semiProblem ''b'') = Value ''no-extra-semi'' \<and> ''no-extra-semi'' \<noteq> []
      \<and> uri docA = uri docA
      \<and> computeKey (makeDiagnostic (semiProblem ''a'')) = computeKey (makeDiagnostic (semiProblem ''b''))"
    using k by (simp add: semiProblem_def)
  have n: "problem_fix ((semiProblem ''a'')\<lparr> ruleId := Null \<rparr>) = None
           \<or> \<not> truthy (ruleId ((semiProblem ''a'')\<lparr> ruleId := Null \<rparr>))"
    by (simp add: truthy_def)
  show ?thesis
    using k h n T by blast
qed

section \<open>The fix resolver\<close>

subsection \<open>Sorting\<close>

lemma set_insertDesc: "set (insertDesc c x xs) = insert x (set xs)"
  by (induction xs) auto

lemma mset_insertDesc: "mset (insertDesc c x xs) = add_mset x (mset xs)"
  by (induction xs) auto

lemma sorted_insertDesc:
  assumes gt: "\<And>t. c t x > 0 \<Longrightarrow> le x t"
      and ngt: "\<And>t. \<not> c t x > 0 \<Longrightarrow> le t x"
      and tr: "\<And>a b d. le a b \<Longrightarrow> le b d \<Longrightarrow> le a d"
      and s: "sorted_wrt (\<lambda>a b. le b a) xs"
  shows "sorted_wrt (\<lambda>a b. le b a) (insertDesc c x xs)"
  using s
proof (induction xs)
  case Nil
  then show ?case by simp
next
  case (Cons t ts)
  show ?case
  proof (cases "c t x > 0")
    case True
    with Cons gt show ?thesis by (auto simp: set_insertDesc)
  next
    case False
    then have "le t x" by (rule ngt)
    with Cons.prems False tr show ?thesis by auto
  qed
qed

lemma foldl_insertDesc_sorted:
  assumes gt: "\<And>t x. c t x > 0 \<Longrightarrow> le x t"
      and ngt: "\<And>t x. \<not> c t x > 0 \<Longrightarrow> le t x"
      and tr: "\<And>a b d. le a b \<Longrightarrow> le b d \<Longrightarrow> le a d"
  shows "sorted_wrt (\<lambda>a b. le b a) acc
         \<Longrightarrow> sorted_wrt (\<lambda>a b. le b a) (foldl (\<lambda>acc x. insertDesc c x acc) acc xs)"
proof (induction xs arbitrary: acc)
  case Nil
  then show ?case by simp
next
  case (Cons x xs)
  have "sorted_wrt (\<lambda>a b. le b a) (insertDesc c x acc)"
    using gt ngt tr Cons.prems by (rule sorted_insertDesc)
  then show ?case using Cons.IH by simp
qed

lemma mset_foldl_insertDesc:
  "mset (foldl (\<lambda>acc x. insertDesc c x acc) acc xs) = mset acc + mset xs"
  by (induction xs arbitrary: acc) (simp_all add: mset_insertDesc)

lemma mset_arraySort: "mset (arraySort c xs) = mset xs"
  by (simp add: arraySort_def mset_foldl_insertDesc)

lemma sorted_arraySort:
  assumes "\<And>t x. c t x > 0 \<Longrightarrow> le x t"
      and "\<And>t x. \<not> c t x > 0 \<Longrightarrow> le t x"
      and "\<And>a b d. le a b \<Longrightarrow> le b d \<Longrightarrow> le a d"
  shows "sorted_wrt le (arraySort c xs)"
proof -
  have "sorted_wrt (\<lambda>a b. le b a) (foldl (\<lambda>acc x. insertDesc c x acc) [] xs)"
    using assms by (intro foldl_insertDesc_sorted) auto
  then show ?thesis by (simp add: arraySort_def sorted_wrt_rev)
qed

lemma compareFixes_gt: "compareFixes t x > 0 \<Longrightarrow> fixOrder x t"
  by (auto simp: compareFixes_def fixOrder_def Let_def split: if_splits)

lemma compareFixes_ngt: "\<not> compareFixes t x > 0 \<Longrightarrow> fixOrder t x"
  by (auto simp: compareFixes_def fixOrder_def Let_def split: if_splits)

lemma fixOrder_trans: "fixOrder a b \<Longrightarrow> fixOrder b c \<Longrightarrow> fixOrder a c"
  by (auto simp: fixOrder_def split: if_splits)

lemma fixOrder_total: "fixOrder a b \<or> fixOrder b a"
  by (auto simp: fixOrder_def)

lemma fixOrder_antisym:
  "fixOrder a b \<Longrightarrow> fixOrder b a
   \<Longrightarrow> range0 (edit a) = range0 (edit b) \<and> range1 (edit a) = range1 (edit b)"
  by (auto simp: fixOrder_def split: if_splits)

lemma map_filter_skip:
  "k \<notin> set ks \<Longrightarrow> List.map_filter (m(k \<mapsto> v)) ks = List.map_filter m ks"
  by (induction ks) (auto simp: List.map_filter_simps split: option.split)

lemma own_entries:
  "distinct (map fst edits) \<Longrightarrow> List.map_filter (map_of edits) (map fst edits) = map snd edits"
proof (induction edits)
  case Nil
  then show ?case by (simp add: List.map_filter_simps)
next
  case (Cons p ps)
  obtain k v where p: "p = (k, v)" by (cases p)
  have nk: "k \<notin> set (map fst ps)" and d: "distinct (map fst ps)"
    using Cons.prems p by simp_all
  have "List.map_filter (map_of (p # ps)) (map fst (p # ps))
        = v # List.map_filter ((map_of ps)(k \<mapsto> v)) (map fst ps)"
    by (simp add: p List.map_filter_simps)
  also have "\<dots> = v # List.map_filter (map_of ps) (map fst ps)"
    using map_filter_skip [OF nk] by simp
  also have "\<dots> = map snd (p # ps)"
    using Cons.IH d p by simp
  finally show ?case .
qed

text \<open>
  Claim C4. \<open>getAllSorted\<close> returns the snapshot's fixes (each once, the keys of an object
  being distinct) in an order in which every fix stands before the fixes that
  \<open>fixOrder\<close> puts after it: ascending start offset; on equal start offsets an end offset
  of 0 before a nonzero one; otherwise ascending end offset. \<open>fixOrder\<close> is total and
  transitive, and two fixes it orders both ways have the same start and end offsets.
\<close>

theorem getAllSorted_sorts:
  "sorted_wrt fixOrder (getAllSorted edits)
   \<and> (distinct (keys edits) \<longrightarrow> mset (getAllSorted edits) = mset (map snd edits))
   \<and> (\<forall>a b. fixOrder a b \<or> fixOrder b a)
   \<and> (\<forall>a b c. fixOrder a b \<and> fixOrder b c \<longrightarrow> fixOrder a c)
   \<and> (\<forall>a b. fixOrder a b \<and> fixOrder b a
         \<longrightarrow> range0 (edit a) = range0 (edit b) \<and> range1 (edit a) = range1 (edit b))"
proof (intro conjI allI impI)
  show "sorted_wrt fixOrder (getAllSorted edits)"
    unfolding getAllSorted_def
    by (rule sorted_arraySort) (auto intro: compareFixes_gt compareFixes_ngt fixOrder_trans)
next
  assume "distinct (keys edits)"
  then show "mset (getAllSorted edits) = mset (map snd edits)"
    by (simp add: getAllSorted_def mset_arraySort keys_def own_entries)
next
  fix a b show "fixOrder a b \<or> fixOrder b a" by (rule fixOrder_total)
next
  fix a b c assume "fixOrder a b \<and> fixOrder b c"
  then show "fixOrder a c" using fixOrder_trans by blast
next
  fix a b assume "fixOrder a b \<and> fixOrder b a"
  then show "range0 (edit a) = range0 (edit b)" "range1 (edit a) = range1 (edit b)"
    using fixOrder_antisym by blast+
qed

theorem getAllSorted_sorts_witness:
  "distinct (keys sampleEdits)
   \<and> getAllSorted sampleEdits =
       [mkFix ''semi'' 0 0, mkFix ''semi'' 0 3, mkFix ''quotes'' 10 20, mkFix ''semi'' 15 25,
        mkFix ''semi'' 20 22]
   \<and> sorted_wrt fixOrder (getAllSorted sampleEdits)
   \<and> mset (getAllSorted sampleEdits) = mset (map snd sampleEdits)
   \<and> fixOrder (mkFix ''semi'' 0 0) (mkFix ''semi'' 0 3)
   \<and> fixOrder (mkFix ''semi'' 0 3) (mkFix ''quotes'' 10 20)
   \<and> fixOrder (mkFix ''semi'' 0 0) (mkFix ''quotes'' 10 20)"
proof -
  have d: "distinct (keys sampleEdits)" by (simp add: keys_def sampleEdits_def)
  have e: "getAllSorted sampleEdits =
       [mkFix ''semi'' 0 0, mkFix ''semi'' 0 3, mkFix ''quotes'' 10 20, mkFix ''semi'' 15 25,
        mkFix ''semi'' 20 22]"
    by (simp add: getAllSorted_def sampleEdits_def keys_def arraySort_def List.map_filter_simps
        compareFixes_def mkFix_def)
  have o: "fixOrder (mkFix ''semi'' 0 0) (mkFix ''semi'' 0 3)
           \<and> fixOrder (mkFix ''semi'' 0 3) (mkFix ''quotes'' 10 20)"
    by (simp add: fixOrder_def mkFix_def)
  show ?thesis
    using d e o getAllSorted_sorts [of sampleEdits] by blast
qed

subsection \<open>The overlap-free selection\<close>

lemma overlapFreeLoop_keepFrom:
  "overlapFreeLoop lastEdit result rest = result @ keepFrom lastEdit rest"
  by (induction rest arbitrary: lastEdit result) (simp_all add: overlaps_def)

lemma overlapFree_is_greedy: "getOverlapFree edits = greedyNonOverlapping (getAllSorted edits)"
proof (cases "getAllSorted edits")
  case Nil
  then show ?thesis by (simp add: getOverlapFree_def greedyNonOverlapping_def)
next
  case (Cons x rest)
  then show ?thesis
    by (cases rest)
       (simp_all add: getOverlapFree_def greedyNonOverlapping_def Let_def overlapFreeLoop_keepFrom)
qed

lemma successively_keepFrom:
  "successively (\<lambda>a b. range1 (edit a) \<le> range0 (edit b)) (x # keepFrom x rest)"
  by (induction rest arbitrary: x) (simp_all add: not_less)

lemma successively_greedy:
  "successively (\<lambda>a b. range1 (edit a) \<le> range0 (edit b)) (greedyNonOverlapping xs)"
  by (cases xs) (simp_all add: greedyNonOverlapping_def successively_keepFrom)

text \<open>
  Claim C5. For every snapshot, \<open>getOverlapFree\<close> returns the greedy left-to-right
  selection from \<open>getAllSorted\<close>: the first edit, and then each later edit iff the end
  offset of the edit kept last is not strictly greater than its start offset. In the
  result, of any two neighbours the first one's end offset is at most the second one's
  start offset.
\<close>

theorem getOverlapFree_greedy_nonoverlapping:
  "getOverlapFree edits = greedyNonOverlapping (getAllSorted edits)
   \<and> successively (\<lambda>a b. range1 (edit a) \<le> range0 (edit b)) (getOverlapFree edits)"
  by (simp add: overlapFree_is_greedy successively_greedy)

text \<open>The specification's scenario B: of the edits [10,20) and [15,25) only the first is kept.\<close>

theorem getOverlapFree_greedy_nonoverlapping_witness:
  "getOverlapFree [(''k1'', mkFix ''semi'' 15 25), (''k2'', mkFix ''semi'' 10 20)]
     = [mkFix ''semi'' 10 20]
   \<and> successively (\<lambda>a b. range1 (edit a) \<le> range0 (edit b))
        (getOverlapFree [(''k1'', mkFix ''semi'' 15 25), (''k2'', mkFix ''semi'' 10 20)])"
proof -
  have s: "getAllSorted [(''k1'', mkFix ''semi'' 15 25), (''k2'', mkFix ''semi'' 10 20)]
           = [mkFix ''semi'' 10 20, mkFix ''semi'' 15 25]"
    by (simp add: getAllSorted_def keys_def arraySort_def List.map_filter_simps
        compareFixes_def mkFix_def)
  have g: "greedyNonOverlapping [mkFix ''semi'' 10 20, mkFix ''semi'' 15 25] = [mkFix ''semi'' 10 20]"
    by (simp add: greedyNonOverlapping_def mkFix_def)
  show ?thesis
    using getOverlapFree_greedy_nonoverlapping
      [of "[(''k1'', mkFix ''semi'' 15 25), (''k2'', mkFix ''semi'' 10 20)]"] s g
    by simp
qed

subsection \<open>The empty snapshot\<close>

lemma getAllSorted_Nil: "getAllSorted [] = []"
  by (simp add: getAllSorted_def keys_def arraySort_def List.map_filter_simps)

lemma getScoped_empty_edits: "getScoped [] diagnostics = []"
  by (induction diagnostics) simp_all

lemma getDocumentVersion_nonempty:
  "getDocumentVersion ((k, f) # rest) = Inr (documentVersion f)"
  by (simp add: getDocumentVersion_def keys_def)

lemma onAllFixesRequest_total:
  "onAllFixesRequest reg (Some doc) u \<noteq> Inl e"
proof (cases "reg u")
  case None
  then show ?thesis by (simp add: onAllFixesRequest_def)
next
  case (Some edits)
  show ?thesis
  proof (cases edits)
    case Nil
    with Some show ?thesis by (simp add: onAllFixesRequest_def isEmpty_def keys_def)
  next
    case (Cons p rest)
    obtain k f where "p = (k, f)" by (cases p)
    with Some Cons show ?thesis
      by (simp add: onAllFixesRequest_def isEmpty_def keys_def getDocumentVersion_nonempty)
  qed
qed

text \<open>
  Claim C2, as stated, fails: on the empty snapshot \<open>getDocumentVersion\<close> reads a property
  of an absent entry and throws.
\<close>

theorem getDocumentVersion_empty_raises:
  "isEmpty [] \<and> getDocumentVersion [] = Inl TypeError"
  by (simp add: isEmpty_def getDocumentVersion_def keys_def)

text \<open>
  Claim C2, amended. On the empty snapshot \<open>isEmpty\<close> is true and \<open>getAllSorted\<close>,
  \<open>getScoped\<close> and \<open>getOverlapFree\<close> return the empty list; these four have no failing
  branch on any snapshot. \<open>getDocumentVersion\<close> throws a TypeError on the empty snapshot
  and returns the version of the first entry on every other one; the handler of the
  all-fixes request, its only caller, calls it only when \<open>isEmpty\<close> is false, and with the
  document open never fails.
\<close>

theorem fixes_methods_on_empty_snapshot:
  "isEmpty []
   \<and> getAllSorted [] = []
   \<and> getScoped [] diagnostics = []
   \<and> getOverlapFree [] = []
   \<and> getDocumentVersion [] = Inl TypeError
   \<and> (\<not> isEmpty edits \<longrightarrow>
        (\<exists>k f rest. edits = (k, f) # rest \<and> getDocumentVersion edits = Inr (documentVersion f)))
   \<and> onAllFixesRequest reg (Some doc) u \<noteq> Inl TypeError"
proof (intro conjI impI)
  show "isEmpty []" by (simp add: isEmpty_def keys_def)
  show "getAllSorted [] = []" by (rule getAllSorted_Nil)
  show "getScoped [] diagnostics = []" by (rule getScoped_empty_edits)
  show "getOverlapFree [] = []" by (simp add: getOverlapFree_def getAllSorted_Nil)
  show "getDocumentVersion [] = Inl TypeError" by (simp add: getDocumentVersion_def keys_def)
  show "onAllFixesRequest reg (Some doc) u \<noteq> Inl TypeError"
    by (rule onAllFixesRequest_total)
next
  assume "\<not> isEmpty edits"
  then obtain p rest where e: "edits = p # rest"
    by (cases edits) (simp_all add: isEmpty_def keys_def)
  obtain k f where "p = (k, f)" by (cases p)
  with e show "\<exists>k f rest. edits = (k, f) # rest \<and> getDocumentVersion edits = Inr (documentVersion f)"
    by (simp add: getDocumentVersion_nonempty)
qed

theorem fixes_methods_on_empty_snapshot_witness:
  "\<not> isEmpty sampleEdits \<and> getDocumentVersion sampleEdits = Inr 7
   \<and> getDocumentVersion [] = Inl TypeError
   \<and> onAllFixesRequest [''file:///a.js'' \<mapsto> sampleEdits] (Some docA) ''file:///a.js''
       \<noteq> Inl TypeError"
proof -
  have n: "\<not> isEmpty sampleEdits" by (simp add: isEmpty_def keys_def sampleEdits_def)
  from fixes_methods_on_empty_snapshot
         [of "[]" sampleEdits "[''file:///a.js'' \<mapsto> sampleEdits]" docA "''file:///a.js''"] n
  show ?thesis by (auto simp: sampleEdits_def mkFix_def)
qed

subsection \<open>Code actions\<close>

lemma getLastEdit_snoc: "getLastEdit (xs @ [x]) = Some x"
  by (simp add: getLastEdit_def)

lemma getLastEdit_Nil: "getLastEdit [] = None"
  by (simp add: getLastEdit_def)

lemma sameAllLoop_same:
  "fst (snd (sameAllLoop r xs (v, same, all)))
   = same @ (case getLastEdit same of
               None \<Rightarrow> greedyNonOverlapping (filter (\<lambda>e. Some (fix_ruleId e) = r) xs)
             | Some l \<Rightarrow> keepFrom l (filter (\<lambda>e. Some (fix_ruleId e) = r) xs))"
proof (induction xs arbitrary: v same all)
  case Nil
  then show ?case by (simp add: greedyNonOverlapping_def split: option.split)
next
  case (Cons e es)
  show ?case
    by (cases "getLastEdit same")
       (simp_all add: Cons.IH getLastEdit_snoc overlaps_def greedyNonOverlapping_def not_less)
qed

lemma sameAllLoop_all:
  "snd (snd (sameAllLoop r xs (v, same, all)))
   = all @ (case getLastEdit all of
               None \<Rightarrow> greedyNonOverlapping xs
             | Some l \<Rightarrow> keepFrom l xs)"
proof (induction xs arbitrary: v same all)
  case Nil
  then show ?case by (simp add: greedyNonOverlapping_def split: option.split)
next
  case (Cons e es)
  show ?case
    by (cases "getLastEdit all")
       (simp_all add: Cons.IH getLastEdit_snoc overlaps_def greedyNonOverlapping_def not_less)
qed

lemma scopedLoop_result:
  "scopedLoop u doc xs (result, v, r)
   = (result @ map (\<lambda>e. Command_create (label e) ''eslint.applySingleFix'' u (documentVersion e)
                          [createTextEdit doc e]) xs,
      if xs = [] then v else documentVersion (last xs),
      if xs = [] then r else Some (fix_ruleId (last xs)))"
  by (induction xs arbitrary: result v r) simp_all

lemma onCodeAction_closed_form:
  "\<exists>v result.
     onCodeAction reg (Some doc) u diagnostics = Inr result
     \<and> result =
         (let edits = (case reg u of None \<Rightarrow> [] | Some e \<Rightarrow> e);
              scoped = getScoped edits diagnostics;
              same = sameRuleSelection (fix_ruleId (last scoped)) (getAllSorted edits);
              all = greedyNonOverlapping (getAllSorted edits)
          in if scoped = [] then []
             else map (\<lambda>e. Command_create (label e) ''eslint.applySingleFix'' u
                             (documentVersion e) [createTextEdit doc e]) scoped
                  @ (if 2 \<le> length same
                     then [Command_create (''Fix all '' @ fix_ruleId (last scoped) @ '' problems'')
                             ''eslint.applySameFixes'' u v (map (createTextEdit doc) same)]
                     else [])
                  @ (if 2 \<le> length all
                     then [Command_create ''Fix all auto-fixable problems''
                             ''eslint.applyAllFixes'' u v (map (createTextEdit doc) all)]
                     else []))
     \<and> filter (\<lambda>c. cmd_command c = ''eslint.applySameFixes'') result =
         (let edits = (case reg u of None \<Rightarrow> [] | Some e \<Rightarrow> e);
              scoped = getScoped edits diagnostics;
              same = sameRuleSelection (fix_ruleId (last scoped)) (getAllSorted edits)
          in if scoped \<noteq> [] \<and> 2 \<le> length same
             then [Command_create (''Fix all '' @ fix_ruleId (last scoped) @ '' problems'')
                     ''eslint.applySameFixes'' u v (map (createTextEdit doc) same)]
             else [])
     \<and> onCodeAction reg None u diagnostics =
         (if getScoped (case reg u of None \<Rightarrow> [] | Some e \<Rightarrow> e) diagnostics = []
          then Inr [] else Inl TypeError)"
proof (cases "reg u")
  case None
  then show ?thesis by (simp add: onCodeAction_def getScoped_empty_edits)
next
  case (Some edits)
  have closed: "onCodeAction reg None u diagnostics =
         (if getScoped (case reg u of None \<Rightarrow> [] | Some e \<Rightarrow> e) diagnostics = []
          then Inr [] else Inl TypeError)"
    using Some by (cases edits) (simp_all add: onCodeAction_def isEmpty_def keys_def getScoped_empty_edits)
  show ?thesis
  proof (cases "getScoped edits diagnostics = []")
    case True
    then show ?thesis using Some by (simp add: onCodeAction_def)
  next
    case False
    define scoped where "scoped = getScoped edits diagnostics"
    define L where "L = sameAllLoop (Some (fix_ruleId (last scoped))) (getAllSorted edits)
                           (documentVersion (last scoped), [], [])"
    have ne: "scoped \<noteq> []" using False by (simp add: scoped_def)
    have nonempty: "\<not> isEmpty edits"
      using False by (cases edits) (simp_all add: isEmpty_def keys_def getScoped_empty_edits)
    have same: "fst (snd L) = sameRuleSelection (fix_ruleId (last scoped)) (getAllSorted edits)"
      by (simp add: L_def sameAllLoop_same getLastEdit_Nil sameRuleSelection_def)
    have all: "snd (snd L) = greedyNonOverlapping (getAllSorted edits)"
      by (simp add: L_def sameAllLoop_all getLastEdit_Nil)
    obtain v s a where L: "L = (v, s, a)" by (cases L)
    have run: "onCodeAction reg (Some doc) u diagnostics =
       Inr (map (\<lambda>e. Command_create (label e) ''eslint.applySingleFix'' u
                               (documentVersion e) [createTextEdit doc e]) scoped
            @ (if length s > 1
               then [Command_create (''Fix all '' @ fix_ruleId (last scoped) @ '' problems'')
                               ''eslint.applySameFixes'' u v (map (createTextEdit doc) s)]
               else [])
            @ (if length a > 1
                       then [Command_create ''Fix all auto-fixable problems''
                               ''eslint.applyAllFixes'' u v (map (createTextEdit doc) a)]
                       else []))"
      using Some nonempty ne L
      by (simp add: onCodeAction_def scopedLoop_result scoped_def [symmetric] L_def [symmetric])
    have s: "s = sameRuleSelection (fix_ruleId (last scoped)) (getAllSorted edits)"
      using same L by simp
    have a: "a = greedyNonOverlapping (getAllSorted edits)"
      using all L by simp
    have two: "\<And>n::nat. (1 < n) = (2 \<le> n)" by arith
    show ?thesis
      apply (rule exI [where x = v])
      apply (rule exI)
      apply (intro conjI)
         apply (rule run)
        apply (simp add: Some Let_def scoped_def [symmetric] ne s a two)
       apply (simp add: Some Let_def scoped_def [symmetric] ne s a two filter_empty_conv)
      apply (rule closed)
      done
  qed
qed

lemma getScoped_scopedSelection: "getScoped edits diagnostics = scopedSelection edits diagnostics"
  by (induction diagnostics) (simp_all add: scopedSelection_def split: option.split)

lemma scopedSelection_snoc:
  "scopedSelection edits (ds @ [d])
   = scopedSelection edits ds
     @ (case map_of edits (computeKey d) of None \<Rightarrow> [] | Some f \<Rightarrow> [f])"
  by (simp add: scopedSelection_def)

lemma lastMatching_snoc:
  "lastMatching edits (ds @ [d])
   = (if map_of edits (computeKey d) = None then lastMatching edits ds else Some d)"
  by (simp add: lastMatching_def map_of_eq_None_iff)

lemma lastMatching_scoped:
  "(case lastMatching edits diagnostics of
      None \<Rightarrow> scopedSelection edits diagnostics = []
    | Some d \<Rightarrow>
        scopedSelection edits diagnostics \<noteq> []
        \<and> map_of edits (computeKey d) = Some (last (scopedSelection edits diagnostics)))"
proof (induction diagnostics rule: rev_induct)
  case Nil
  then show ?case by (simp add: lastMatching_def scopedSelection_def)
next
  case (snoc d ds)
  show ?case
  proof (cases "map_of edits (computeKey d)")
    case None
    with snoc show ?thesis
      by (simp add: lastMatching_snoc scopedSelection_snoc split: option.splits)
  next
    case (Some f)
    then show ?thesis by (simp add: lastMatching_snoc scopedSelection_snoc)
  qed
qed

text \<open>
  Claim C10. With the document open, the code-action handler answers with one
  single-fix command per scoped fix, followed by the aggregate commands. The scoped
  fixes are, for each context diagnostic in order, the fix stored under its key if there
  is one. The rule the same-fixes command is for is the rule id of the last scoped fix,
  and the last scoped fix is the entry under the key of the last context diagnostic whose
  key has an entry. The answer holds that command iff there is a scoped fix and the
  greedy non-overlapping selection among the sorted fixes of that rule has at least two
  fixes, and then holds it once, with the text edits of that selection. With no document
  open under the URI the handler emits no command: its answer is empty when there is no
  scoped fix, and it throws otherwise. (\<open>edits\<close> is the registry's entry for the URI, or
  empty when it has none.)
\<close>

theorem onCodeAction_same_fixes:
  "\<exists>v result.
     onCodeAction reg (Some doc) u diagnostics = Inr result
     \<and> result =
         (let edits = (case reg u of None \<Rightarrow> [] | Some e \<Rightarrow> e);
              scoped = scopedSelection edits diagnostics;
              same = sameRuleSelection (fix_ruleId (last scoped)) (getAllSorted edits);
              all = greedyNonOverlapping (getAllSorted edits)
          in if scoped = [] then []
             else map (\<lambda>e. Command_create (label e) ''eslint.applySingleFix'' u
                             (documentVersion e) [createTextEdit doc e]) scoped
                  @ (if 2 \<le> length same
                     then [Command_create (''Fix all '' @ fix_ruleId (last scoped) @ '' problems'')
                             ''eslint.applySameFixes'' u v (map (createTextEdit doc) same)]
                     else [])
                  @ (if 2 \<le> length all
                     then [Command_create ''Fix all auto-fixable problems''
                             ''eslint.applyAllFixes'' u v (map (createTextEdit doc) all)]
                     else []))
     \<and> filter (\<lambda>c. cmd_command c = ''eslint.applySameFixes'') result =
         (let edits = (case reg u of None \<Rightarrow> [] | Some e \<Rightarrow> e);
              scoped = scopedSelection edits diagnostics;
              same = sameRuleSelection (fix_ruleId (last scoped)) (getAllSorted edits)
          in if scoped \<noteq> [] \<and> 2 \<le> length same
             then [Command_create (''Fix all '' @ fix_ruleId (last scoped) @ '' problems'')
                     ''eslint.applySameFixes'' u v (map (createTextEdit doc) same)]
             else [])
     \<and> onCodeAction reg None u diagnostics =
         (if scopedSelection (case reg u of None \<Rightarrow> [] | Some e \<Rightarrow> e) diagnostics = []
          then Inr [] else Inl TypeError)
     \<and> (case lastMatching (case reg u of None \<Rightarrow> [] | Some e \<Rightarrow> e) diagnostics of
           None \<Rightarrow> scopedSelection (case reg u of None \<Rightarrow> [] | Some e \<Rightarrow> e) diagnostics = []
         | Some d \<Rightarrow>
             scopedSelection (case reg u of None \<Rightarrow> [] | Some e \<Rightarrow> e) diagnostics \<noteq> []
             \<and> map_of (case reg u of None \<Rightarrow> [] | Some e \<Rightarrow> e) (computeKey d)
                 = Some (last (scopedSelection (case reg u of None \<Rightarrow> [] | Some e \<Rightarrow> e)
                                 diagnostics)))"
proof -
  note form = onCodeAction_closed_form [of reg doc u diagnostics, unfolded getScoped_scopedSelection]
  note lm = lastMatching_scoped [of "case reg u of None \<Rightarrow> [] | Some e \<Rightarrow> e" diagnostics]
  from form lm show ?thesis by blast
qed

lemma sampleRegistry_entry: "sampleRegistry ''file:///a.js'' = Some sampleRegistryEdits"
  by code_simp

lemma sample_scoped: "scopedSelection sampleRegistryEdits sampleContext = [noVarFix, semiFix 6 7]"
  by code_simp

lemma sample_lastMatching:
  "lastMatching sampleRegistryEdits sampleContext
   = Some (makeDiagnostic (fixable 7 ''no-extra-semi'' 6 7))"
  by code_simp

lemma sample_same:
  "sameRuleSelection ''no-extra-semi'' (getAllSorted sampleRegistryEdits)
   = [semiFix 6 7, semiFix 7 8]"
  by code_simp

lemma sample_all:
  "greedyNonOverlapping (getAllSorted sampleRegistryEdits) = [noVarFix, semiFix 6 7, semiFix 7 8]"
  by code_simp

text \<open>
  The handler on the sample registry. The context diagnostics are not in the order of
  the registry and the last of them has no fix: the single-fix commands follow the
  context, and the same-fixes command is for the rule of the last diagnostic that has a
  fix.
\<close>

theorem onCodeAction_same_fixes_witness:
  "\<exists>v. onCodeAction sampleRegistry (Some docA) ''file:///a.js'' sampleContext =
       Inr [Command_create ''Fix this no-var problem'' ''eslint.applySingleFix''
              ''file:///a.js'' 7
              [TextEdit_replace (Range_create (Position_create 0 0) (Position_create 0 3)) []],
            Command_create ''Fix this no-extra-semi problem'' ''eslint.applySingleFix''
              ''file:///a.js'' 7
              [TextEdit_replace (Range_create (Position_create 0 6) (Position_create 0 7)) []],
            Command_create ''Fix all no-extra-semi problems'' ''eslint.applySameFixes''
              ''file:///a.js'' v
              [TextEdit_replace (Range_create (Position_create 0 6) (Position_create 0 7)) [],
               TextEdit_replace (Range_create (Position_create 0 7) (Position_create 0 8)) []],
            Command_create ''Fix all auto-fixable problems'' ''eslint.applyAllFixes''
              ''file:///a.js'' v
              [TextEdit_replace (Range_create (Position_create 0 0) (Position_create 0 3)) [],
               TextEdit_replace (Range_create (Position_create 0 6) (Position_create 0 7)) [],
               TextEdit_replace (Range_create (Position_create 0 7) (Position_create 0 8)) []]]
   \<and> lastMatching sampleRegistryEdits sampleContext
       = Some (makeDiagnostic (fixable 7 ''no-extra-semi'' 6 7))
   \<and> map_of sampleRegistryEdits (computeKey (makeDiagnostic (fixable 7 ''no-extra-semi'' 6 7)))
       = Some (semiFix 6 7)"
proof -
  obtain v result where
    r: "onCodeAction sampleRegistry (Some docA) ''file:///a.js'' sampleContext = Inr result"
    and f: "result =
         (let edits = (case sampleRegistry ''file:///a.js'' of None \<Rightarrow> [] | Some e \<Rightarrow> e);
              scoped = scopedSelection edits sampleContext;
              same = sameRuleSelection (fix_ruleId (last scoped)) (getAllSorted edits);
              all = greedyNonOverlapping (getAllSorted edits)
          in if scoped = [] then []
             else map (\<lambda>e. Command_create (label e) ''eslint.applySingleFix'' ''file:///a.js''
                             (documentVersion e) [createTextEdit docA e]) scoped
                  @ (if 2 \<le> length same
                     then [Command_create (''Fix all '' @ fix_ruleId (last scoped) @ '' problems'')
                             ''eslint.applySameFixes'' ''file:///a.js'' v
                             (map (createTextEdit docA) same)]
                     else [])
                  @ (if 2 \<le> length all
                     then [Command_create ''Fix all auto-fixable problems''
                             ''eslint.applyAllFixes'' ''file:///a.js'' v
                             (map (createTextEdit docA) all)]
                     else []))"
    and l: "(case lastMatching (case sampleRegistry ''file:///a.js'' of None \<Rightarrow> [] | Some e \<Rightarrow> e)
                   sampleContext of
           None \<Rightarrow> scopedSelection (case sampleRegistry ''file:///a.js'' of None \<Rightarrow> [] | Some e \<Rightarrow> e)
                     sampleContext = []
         | Some d \<Rightarrow>
             scopedSelection (case sampleRegistry ''file:///a.js'' of None \<Rightarrow> [] | Some e \<Rightarrow> e)
               sampleContext \<noteq> []
             \<and> map_of (case sampleRegistry ''file:///a.js'' of None \<Rightarrow> [] | Some e \<Rightarrow> e)
                  (computeKey d)
                 = Some (last (scopedSelection
                                 (case sampleRegistry ''file:///a.js'' of None \<Rightarrow> [] | Some e \<Rightarrow> e)
                                 sampleContext)))"
    using onCodeAction_same_fixes [of sampleRegistry docA "''file:///a.js''" sampleContext]
    by blast
  have t: "fix_ruleId (semiFix 6 7) = ''no-extra-semi''" by (simp add: semiFix_def)
  have p: "createTextEdit docA noVarFix
             = TextEdit_replace (Range_create (Position_create 0 0) (Position_create 0 3)) []"
          "createTextEdit docA (semiFix 6 7)
             = TextEdit_replace (Range_create (Position_create 0 6) (Position_create 0 7)) []"
          "createTextEdit docA (semiFix 7 8)
             = TextEdit_replace (Range_create (Position_create 0 7) (Position_create 0 8)) []"
    by (simp_all add: createTextEdit_def docA_def semiFix_def noVarFix_def singleLine_def)
  have q: "label noVarFix = ''Fix this no-var problem''" "documentVersion noVarFix = 7"
          "label (semiFix 6 7) = ''Fix this no-extra-semi problem''"
          "documentVersion (semiFix 6 7) = 7"
    by (simp_all add: semiFix_def noVarFix_def)
  have res: "result =
       [Command_create ''Fix this no-var problem'' ''eslint.applySingleFix''
              ''file:///a.js'' 7
              [TextEdit_replace (Range_create (Position_create 0 0) (Position_create 0 3)) []],
            Command_create ''Fix this no-extra-semi problem'' ''eslint.applySingleFix''
              ''file:///a.js'' 7
              [TextEdit_replace (Range_create (Position_create 0 6) (Position_create 0 7)) []],
            Command_create ''Fix all no-extra-semi problems'' ''eslint.applySameFixes''
              ''file:///a.js'' v
              [TextEdit_replace (Range_create (Position_create 0 6) (Position_create 0 7)) [],
               TextEdit_replace (Range_create (Position_create 0 7) (Position_create 0 8)) []],
            Command_create ''Fix all auto-fixable problems'' ''eslint.applyAllFixes''
              ''file:///a.js'' v
              [TextEdit_replace (Range_create (Position_create 0 0) (Position_create 0 3)) [],
               TextEdit_replace (Range_create (Position_create 0 6) (Position_create 0 7)) [],
               TextEdit_replace (Range_create (Position_create 0 7) (Position_create 0 8)) []]]"
    using f by (simp add: sampleRegistry_entry sample_scoped t sample_same sample_all p q Let_def)
  have m: "map_of sampleRegistryEdits (computeKey (makeDiagnostic (fixable 7 ''no-extra-semi'' 6 7)))
       = Some (semiFix 6 7)"
    using l by (simp add: sampleRegistry_entry sample_lastMatching sample_scoped)
  from r res m sample_lastMatching show ?thesis by blast
qed

section \<open>Closing a document\<close>

text \<open>
  A single-document validation reads neither the library map nor the messages already
  sent, and the documents store only to decide whether to show an information message,
  so from two states that differ only there it does the same but for information
  messages.
\<close>

lemma framedI:
  assumes "\<And>s t. sameButLibraries s t \<Longrightarrow>
        fst (f s) = fst (f t)
        \<and> sameButLibraries (snd (f s)) (snd (f t))
        \<and> (\<exists>ms ms'. sent (snd (f s)) = sent s @ ms \<and> sent (snd (f t)) = sent t @ ms'
              \<and> filter (\<lambda>m. \<not> isInformationMessage m) ms
                  = filter (\<lambda>m. \<not> isInformationMessage m) ms')"
  shows "framed f"
  using assms by (simp add: framed_def)

lemma framedD:
  assumes "framed f" and "sameButLibraries s t"
  shows "fst (f s) = fst (f t)" and "sameButLibraries (snd (f s)) (snd (f t))"
    and "\<exists>ms ms'. sent (snd (f s)) = sent s @ ms \<and> sent (snd (f t)) = sent t @ ms'
              \<and> filter (\<lambda>m. \<not> isInformationMessage m) ms
                  = filter (\<lambda>m. \<not> isInformationMessage m) ms'"
  using assms by (simp_all add: framed_def)

lemma validate_framed: "framed (validate document outcome)"
  by (rule framedI, cases outcome)
     (auto simp: sameButLibraries_def validate_def send_def Let_def
           split: prod.split option.split list.split)

lemma tryHandleNoConfig_framed: "framed (tryHandleNoConfig ext err document library)"
  by (rule framedI) (auto simp: sameButLibraries_def tryHandleNoConfig_def send_def)

lemma handleFileName_framed: "framed (handleFileName ext err document library f)"
proof (rule framedI)
  fix s t assume st: "sameButLibraries s t"
  show "fst (handleFileName ext err document library f s)
          = fst (handleFileName ext err document library f t)
        \<and> sameButLibraries (snd (handleFileName ext err document library f s))
                            (snd (handleFileName ext err document library f t))
        \<and> (\<exists>ms ms'. sent (snd (handleFileName ext err document library f s)) = sent s @ ms
              \<and> sent (snd (handleFileName ext err document library f t)) = sent t @ ms'
              \<and> filter (\<lambda>m. \<not> isInformationMessage m) ms
                  = filter (\<lambda>m. \<not> isInformationMessage m) ms')"
  proof (cases "configErrorReported s f = None")
    case False
    with st show ?thesis by (auto simp: handleFileName_def sameButLibraries_def)
  next
    case True
    define m where "m = getMessage ext err document"
    have a: "sent (snd (handleFileName ext err document library f s))
             = sent s @ (ConsoleWarn m # (if openDocuments s (fileUri ext f) = None
                                          then [ShowInformationMessage m] else []))"
      using True by (simp add: handleFileName_def send_def Let_def m_def)
    have b: "sent (snd (handleFileName ext err document library f t))
             = sent t @ (ConsoleWarn m # (if openDocuments t (fileUri ext f) = None
                                          then [ShowInformationMessage m] else []))"
      using True st by (simp add: handleFileName_def send_def Let_def m_def sameButLibraries_def)
    have c: "fst (handleFileName ext err document library f s)
               = fst (handleFileName ext err document library f t)
             \<and> sameButLibraries (snd (handleFileName ext err document library f s))
                                 (snd (handleFileName ext err document library f t))"
      using True st by (simp add: handleFileName_def send_def Let_def sameButLibraries_def)
    have d: "filter (\<lambda>m. \<not> isInformationMessage m)
               (ConsoleWarn m # (if openDocuments s (fileUri ext f) = None
                                 then [ShowInformationMessage m] else []))
             = filter (\<lambda>m. \<not> isInformationMessage m)
               (ConsoleWarn m # (if openDocuments t (fileUri ext f) = None
                                 then [ShowInformationMessage m] else []))"
      by simp
    from a b c d show ?thesis by blast
  qed
qed

lemma framed_return: "framed (\<lambda>s. (x, s))"
  by (rule framedI) simp

lemma tryHandleConfigError_framed: "framed (tryHandleConfigError ext err document library)"
proof -
  have "tryHandleConfigError ext err document library = (\<lambda>s. (None, s))
        \<or> (\<exists>f. tryHandleConfigError ext err document library
                 = handleFileName ext err document library f)"
    by (auto simp: tryHandleConfigError_def fun_eq_iff split: option.split)
  then show ?thesis using framed_return handleFileName_framed by auto
qed

lemma showErrorMessage_framed: "framed (showErrorMessage ext err document library)"
  by (rule framedI) (auto simp: sameButLibraries_def showErrorMessage_def send_def)

lemma framed_then:
  assumes "sent s1 = sent s @ ms" and "sent t1 = sent t @ ms'"
      and "filter (\<lambda>m. \<not> isInformationMessage m) ms = filter (\<lambda>m. \<not> isInformationMessage m) ms'"
      and "sent s2 = sent s1 @ ns" and "sent t2 = sent t1 @ ns'"
      and "filter (\<lambda>m. \<not> isInformationMessage m) ns = filter (\<lambda>m. \<not> isInformationMessage m) ns'"
  shows "\<exists>ms ms'. sent s2 = sent s @ ms \<and> sent t2 = sent t @ ms'
              \<and> filter (\<lambda>m. \<not> isInformationMessage m) ms
                  = filter (\<lambda>m. \<not> isInformationMessage m) ms'"
proof (intro exI conjI)
  show "sent s2 = sent s @ (ms @ ns)" using assms by simp
  show "sent t2 = sent t @ (ms' @ ns')" using assms by simp
  show "filter (\<lambda>m. \<not> isInformationMessage m) (ms @ ns)
        = filter (\<lambda>m. \<not> isInformationMessage m) (ms' @ ns')"
    using assms by simp
qed

lemma runHandlers_framed:
  assumes "\<And>h. h \<in> set hs \<Longrightarrow> framed (h err document library)"
  shows "framed (runHandlers hs err document library)"
  using assms
proof (induction hs)
  case Nil
  have "runHandlers [] err document library = (\<lambda>s. (None, s))" by (simp add: fun_eq_iff)
  then show ?case using framed_return by simp
next
  case (Cons h hs)
  have fh: "framed (h err document library)" using Cons.prems by simp
  have fr: "framed (runHandlers hs err document library)" using Cons by simp
  show ?case
  proof (rule framedI)
    fix s t assume st: "sameButLibraries s t"
    obtain r s1 where hs: "h err document library s = (r, s1)" by (cases "h err document library s")
    obtain r' t1 where ht: "h err document library t = (r', t1)" by (cases "h err document library t")
    from framedD [OF fh st] hs ht obtain ms ms' where rr: "r = r'" and st1: "sameButLibraries s1 t1"
      and m1: "sent s1 = sent s @ ms" "sent t1 = sent t @ ms'"
        "filter (\<lambda>m. \<not> isInformationMessage m) ms = filter (\<lambda>m. \<not> isInformationMessage m) ms'"
      by auto
    show "fst (runHandlers (h # hs) err document library s) = fst (runHandlers (h # hs) err document library t)
        \<and> sameButLibraries (snd (runHandlers (h # hs) err document library s))
                            (snd (runHandlers (h # hs) err document library t))
        \<and> (\<exists>ms ms'. sent (snd (runHandlers (h # hs) err document library s)) = sent s @ ms
               \<and> sent (snd (runHandlers (h # hs) err document library t)) = sent t @ ms'
               \<and> filter (\<lambda>m. \<not> isInformationMessage m) ms
                  = filter (\<lambda>m. \<not> isInformationMessage m) ms')"
    proof (cases r)
      case (Some st')
      with hs ht rr st1 m1 show ?thesis by auto
    next
      case None
      from framedD [OF fr st1] obtain ns ns' where
          e: "fst (runHandlers hs err document library s1) = fst (runHandlers hs err document library t1)"
          "sameButLibraries (snd (runHandlers hs err document library s1))
                            (snd (runHandlers hs err document library t1))"
          and n: "sent (snd (runHandlers hs err document library s1)) = sent s1 @ ns"
          "sent (snd (runHandlers hs err document library t1)) = sent t1 @ ns'"
          "filter (\<lambda>m. \<not> isInformationMessage m) ns = filter (\<lambda>m. \<not> isInformationMessage m) ns'"
        by blast
      have "\<exists>ms ms'. sent (snd (runHandlers hs err document library s1)) = sent s @ ms
               \<and> sent (snd (runHandlers hs err document library t1)) = sent t @ ms'
               \<and> filter (\<lambda>m. \<not> isInformationMessage m) ms
                  = filter (\<lambda>m. \<not> isInformationMessage m) ms'"
        using m1 n by (rule framed_then)
      with e None hs ht rr show ?thesis by simp
    qed
  qed
qed

lemma single_handlers_framed: "framed (runHandlers (singleErrorHandlers ext) err document library)"
  by (rule runHandlers_framed)
     (auto simp: singleErrorHandlers_def tryHandleNoConfig_framed tryHandleConfigError_framed
        showErrorMessage_framed)

lemma validateSingle_framed: "framed (\<lambda>s. ((), validateSingle ext document library outcome s))"
proof (cases library)
  case None
  then have "(\<lambda>s. ((), validateSingle ext document library outcome s)) = (\<lambda>s. ((), s))"
    by (simp add: validateSingle_def fun_eq_iff)
  then show ?thesis using framed_return [of "()"] by simp
next
  case (Some lib)
  show ?thesis
  proof (rule framedI)
    fix s t assume st: "sameButLibraries s t"
    obtain r s1 where vs: "validate document outcome s = (r, s1)" by (cases "validate document outcome s")
    obtain r' t1 where vt: "validate document outcome t = (r', t1)" by (cases "validate document outcome t")
    from framedD [OF validate_framed st, of document outcome] vs vt
    obtain ms ms' where rr: "r' = r" and st1: "sameButLibraries s1 t1"
      and m1: "sent s1 = sent s @ ms" "sent t1 = sent t @ ms'"
        "filter (\<lambda>m. \<not> isInformationMessage m) ms = filter (\<lambda>m. \<not> isInformationMessage m) ms'"
      by auto
    show "fst ((), validateSingle ext document library outcome s) = fst ((), validateSingle ext document library outcome t)
        \<and> sameButLibraries (snd ((), validateSingle ext document library outcome s))
                            (snd ((), validateSingle ext document library outcome t))
        \<and> (\<exists>ms ms'. sent (snd ((), validateSingle ext document library outcome s)) = sent s @ ms
               \<and> sent (snd ((), validateSingle ext document library outcome t)) = sent t @ ms'
               \<and> filter (\<lambda>m. \<not> isInformationMessage m) ms
                  = filter (\<lambda>m. \<not> isInformationMessage m) ms')"
    proof (cases r)
      case None
      define n where "n = StatusNotification StatusOk"
      have vs': "validateSingle ext document library outcome s = send n s1"
        and vt': "validateSingle ext document library outcome t = send n t1"
        using None \<open>library = Some lib\<close> vs vt rr by (simp_all add: validateSingle_def n_def)
      have "\<exists>ms ms'. sent (send n s1) = sent s @ ms \<and> sent (send n t1) = sent t @ ms'
               \<and> filter (\<lambda>m. \<not> isInformationMessage m) ms
                  = filter (\<lambda>m. \<not> isInformationMessage m) ms'"
        using m1 by (rule framed_then) (simp_all add: send_def)
      with vs' vt' st1 show ?thesis by (simp add: send_def sameButLibraries_def)
    next
      case (Some thrown)
      obtain q s2 where hs: "runHandlers (singleErrorHandlers ext) thrown document lib s1 = (q, s2)"
        by (cases "runHandlers (singleErrorHandlers ext) thrown document lib s1")
      obtain q' t2 where ht: "runHandlers (singleErrorHandlers ext) thrown document lib t1 = (q', t2)"
        by (cases "runHandlers (singleErrorHandlers ext) thrown document lib t1")
      from framedD [OF single_handlers_framed st1, of ext thrown document lib] hs ht
      obtain ns ns' where qq: "q' = q" and st2: "sameButLibraries s2 t2"
        and m2: "sent s2 = sent s1 @ ns" "sent t2 = sent t1 @ ns'"
          "filter (\<lambda>m. \<not> isInformationMessage m) ns = filter (\<lambda>m. \<not> isInformationMessage m) ns'"
        by auto
      define n where "n = StatusNotification (case q of None \<Rightarrow> StatusError | Some st \<Rightarrow> st)"
      have vs': "validateSingle ext document library outcome s = send n s2"
        and vt': "validateSingle ext document library outcome t = send n t2"
        using Some \<open>library = Some lib\<close> vs vt rr hs ht qq by (simp_all add: validateSingle_def n_def)
      have m12: "\<exists>ms ms'. sent s2 = sent s @ ms \<and> sent t2 = sent t @ ms'
               \<and> filter (\<lambda>m. \<not> isInformationMessage m) ms
                  = filter (\<lambda>m. \<not> isInformationMessage m) ms'"
        using m1 m2 by (rule framed_then)
      then obtain ks ks' where k: "sent s2 = sent s @ ks" "sent t2 = sent t @ ks'"
        "filter (\<lambda>m. \<not> isInformationMessage m) ks = filter (\<lambda>m. \<not> isInformationMessage m) ks'"
        by blast
      have "\<exists>ms ms'. sent (send n s2) = sent s @ ms \<and> sent (send n t2) = sent t @ ms'
               \<and> filter (\<lambda>m. \<not> isInformationMessage m) ms
                  = filter (\<lambda>m. \<not> isInformationMessage m) ms'"
        using k by (rule framed_then) (simp_all add: send_def)
      with vs' vt' st2 show ?thesis by (simp add: send_def sameButLibraries_def)
    qed
  qed
qed

lemma closeDocument_same: "sameButLibraries s (closeDocument document s)"
  by (simp add: sameButLibraries_def closeDocument_def onDidClose_def send_def)

lemma pending_validation_unaffected:
  "filter (\<lambda>m. \<not> isInformationMessage m)
     (drop (length (sent (closeDocument document s)))
        (sent (validateSingle ext d l outcome (closeDocument document s))))
   = filter (\<lambda>m. \<not> isInformationMessage m)
       (drop (length (sent s)) (sent (validateSingle ext d l outcome s)))
   \<and> codeActions (validateSingle ext d l outcome (closeDocument document s))
     = codeActions (validateSingle ext d l outcome s)
   \<and> noConfigReported (validateSingle ext d l outcome (closeDocument document s))
     = noConfigReported (validateSingle ext d l outcome s)
   \<and> configErrorReported (validateSingle ext d l outcome (closeDocument document s))
     = configErrorReported (validateSingle ext d l outcome s)"
  using framedD [OF validateSingle_framed closeDocument_same [of s document], of ext d l outcome]
  by (auto simp: sameButLibraries_def)

text \<open>
  Claim C3, as stated, fails: closing a document that is not ignored leaves the
  registry's entry for its URI in place.
\<close>

theorem onDidClose_keeps_registry:
  "\<not> ignoreTextDocument sampleServer docA
   \<and> codeActions sampleServer (uri docA) \<noteq> None
   \<and> codeActions (onDidClose docA sampleServer) (uri docA) = codeActions sampleServer (uri docA)
   \<and> codeActions (closeDocument docA sampleServer) (uri docA) = codeActions sampleServer (uri docA)"
  by (simp add: closeDocument_def onDidClose_def send_def ignoreTextDocument_def sampleServer_def
      docA_def supportedLanguages_def sampleRegistry_def sampleProblems_def recordCodeAction_def
      fixable_def)

text \<open>
  Claim C3, amended. On a document-close event the documents manager takes the document
  out of its store and the handler runs. For a document that is not ignored, the handler
  discards the entry of the library map \<open>document2Library\<close> for the document's URI and
  sends an empty diagnostics list for the URI; for an ignored document it does nothing.
  Nothing else is done: the fix registry, with its entry for the URI, and the two dedup
  stores stay as they were. No validation in progress is aborted: a validation that
  completes after the close, of this or of another document, leaves the registry and the
  dedup stores as it would have without the close and sends the same messages, the
  diagnostics and the status among them, but for information messages (the config-error
  handler shows one when the file it names is not open, which the close can make true).
\<close>

theorem onDidClose_frame:
  "codeActions (closeDocument document s) = codeActions s
   \<and> noConfigReported (closeDocument document s) = noConfigReported s
   \<and> configErrorReported (closeDocument document s) = configErrorReported s
   \<and> openDocuments (closeDocument document s) = (openDocuments s)(uri document := None)
   \<and> (ignoreTextDocument s document \<longrightarrow>
        document2Library (closeDocument document s) = document2Library s
        \<and> sent (closeDocument document s) = sent s)
   \<and> (\<not> ignoreTextDocument s document \<longrightarrow>
        document2Library (closeDocument document s) = (document2Library s)(uri document := None)
        \<and> sent (closeDocument document s) = sent s @ [PublishDiagnostics (uri document) []])
   \<and> filter (\<lambda>m. \<not> isInformationMessage m)
        (drop (length (sent (closeDocument document s)))
           (sent (validateSingle ext d l outcome (closeDocument document s))))
      = filter (\<lambda>m. \<not> isInformationMessage m)
          (drop (length (sent s)) (sent (validateSingle ext d l outcome s)))
   \<and> codeActions (validateSingle ext d l outcome (closeDocument document s))
      = codeActions (validateSingle ext d l outcome s)
   \<and> noConfigReported (validateSingle ext d l outcome (closeDocument document s))
      = noConfigReported (validateSingle ext d l outcome s)
   \<and> configErrorReported (validateSingle ext d l outcome (closeDocument document s))
      = configErrorReported (validateSingle ext d l outcome s)"
proof -
  have effect: "codeActions (closeDocument document s) = codeActions s
   \<and> noConfigReported (closeDocument document s) = noConfigReported s
   \<and> configErrorReported (closeDocument document s) = configErrorReported s
   \<and> openDocuments (closeDocument document s) = (openDocuments s)(uri document := None)
   \<and> (ignoreTextDocument s document \<longrightarrow>
        document2Library (closeDocument document s) = document2Library s
        \<and> sent (closeDocument document s) = sent s)
   \<and> (\<not> ignoreTextDocument s document \<longrightarrow>
        document2Library (closeDocument document s) = (document2Library s)(uri document := None)
        \<and> sent (closeDocument document s) = sent s @ [PublishDiagnostics (uri document) []])"
    by (simp add: closeDocument_def onDidClose_def send_def ignoreTextDocument_def)
  show ?thesis
    using effect pending_validation_unaffected [of document s ext d l outcome] by blast
qed

theorem onDidClose_frame_witness:
  "\<not> ignoreTextDocument sampleServer docA
   \<and> document2Library (closeDocument docA sampleServer)
       = (document2Library sampleServer)(uri docA := None)
   \<and> sent (closeDocument docA sampleServer) = sent sampleServer @ [PublishDiagnostics (uri docA) []]
   \<and> codeActions (closeDocument docA sampleServer) = codeActions sampleServer
   \<and> openDocuments (closeDocument docA sampleServer) = (openDocuments sampleServer)(uri docA := None)
   \<and> ignoreTextDocument sampleServer docPy
   \<and> sent (closeDocument docPy sampleServer) = sent sampleServer
   \<and> document2Library (closeDocument docPy sampleServer) = document2Library sampleServer
   \<and> filter (\<lambda>m. \<not> isInformationMessage m)
        (drop (length (sent (closeDocument docA sampleServer)))
           (sent (validateSingle sampleExt docB (Some sampleLibrary) (ExecuteThrows configError)
                    (closeDocument docA sampleServer))))
      = filter (\<lambda>m. \<not> isInformationMessage m)
          (drop (length (sent sampleServer))
             (sent (validateSingle sampleExt docB (Some sampleLibrary) (ExecuteThrows configError)
                      sampleServer)))"
proof -
  have a: "\<not> ignoreTextDocument sampleServer docA"
    by (simp add: ignoreTextDocument_def sampleServer_def docA_def supportedLanguages_def)
  have p: "ignoreTextDocument sampleServer docPy"
    by (simp add: ignoreTextDocument_def sampleServer_def docPy_def supportedLanguages_def
        objectPrototypeNames_def)
  show ?thesis
    using a p
      onDidClose_frame [of docA sampleServer sampleExt docB "Some sampleLibrary"
                           "ExecuteThrows configError"]
      onDidClose_frame [of docPy sampleServer]
    by blast
qed

text \<open>
  What the sample validation sends: the config error of \<open>b.js\<close> names the file of
  \<open>a.js\<close>; while \<open>a.js\<close> is open no information message is shown, after its close one
  is.
\<close>

lemma sample_validation_before_close:
  "sent (validateSingle sampleExt docB (Some sampleLibrary) (ExecuteThrows configError)
           sampleServer)
   = [ConsoleWarn ''Cannot read config file: /a.js Error: bad'',
      StatusNotification StatusWarn]"
  by code_simp

lemma sample_validation_after_close:
  "sent (validateSingle sampleExt docB (Some sampleLibrary) (ExecuteThrows configError)
           (closeDocument docA sampleServer))
   = [PublishDiagnostics ''file:///a.js'' [],
      ConsoleWarn ''Cannot read config file: /a.js Error: bad'',
      ShowInformationMessage ''Cannot read config file: /a.js Error: bad'',
      StatusNotification StatusWarn]"
  by code_simp

section \<open>Single-document validation\<close>

lemma validate_status:
  "filter isStatusNotification (sent (snd (validate document outcome s)))
   = filter isStatusNotification (sent s)"
  by (cases outcome)
     (auto simp: validate_def send_def Let_def split: prod.split option.split list.split)

lemma tryHandleNoConfig_status:
  "filter isStatusNotification (sent (snd (tryHandleNoConfig ext err document library s)))
   = filter isStatusNotification (sent s)"
  by (simp add: tryHandleNoConfig_def send_def)

lemma tryHandleNoConfig_fst:
  "fst (tryHandleNoConfig ext err document library s)
   = (if isNoConfigFoundError err then Some StatusWarn else None)"
  by (simp add: tryHandleNoConfig_def)

lemma handleFileName_status:
  "filter isStatusNotification (sent (snd (handleFileName ext err document library f s)))
   = filter isStatusNotification (sent s)"
  by (simp add: handleFileName_def send_def Let_def)

lemma handleFileName_fst: "fst (handleFileName ext err document library f s) = Some StatusWarn"
  by (simp add: handleFileName_def Let_def)

lemma tryHandleConfigError_cases:
  "tryHandleConfigError ext err document library s = (None, s)
   \<or> (\<exists>f. tryHandleConfigError ext err document library s
            = handleFileName ext err document library f s)"
  by (auto simp: tryHandleConfigError_def split: option.split)

lemma tryHandleConfigError_status:
  "filter isStatusNotification (sent (snd (tryHandleConfigError ext err document library s)))
   = filter isStatusNotification (sent s)"
  using tryHandleConfigError_cases [of ext err document library s]
  by (auto simp: handleFileName_status)

lemma tryHandleConfigError_fst:
  "fst (tryHandleConfigError ext err document library s) = None
   \<or> fst (tryHandleConfigError ext err document library s) = Some StatusWarn"
  using tryHandleConfigError_cases [of ext err document library s]
  by (auto simp: handleFileName_fst)

lemma runHandlers_single:
  "runHandlers (singleErrorHandlers ext) err document library s =
     (case tryHandleNoConfig ext err document library s of
        (Some st, s1) \<Rightarrow> (Some st, s1)
      | (None, s1) \<Rightarrow>
          (case tryHandleConfigError ext err document library s1 of
             (Some st, s2) \<Rightarrow> (Some st, s2)
           | (None, s2) \<Rightarrow> showErrorMessage ext err document library s2))"
  by (simp add: singleErrorHandlers_def showErrorMessage_def split: prod.split option.split)

lemma runHandlers_single_result:
  "\<exists>st s'. runHandlers (singleErrorHandlers ext) err document library s = (Some st, s')
     \<and> (st = StatusWarn \<or> st = StatusError)
     \<and> filter isStatusNotification (sent s') = filter isStatusNotification (sent s)"
proof (cases "tryHandleNoConfig ext err document library s")
  case (Pair r1 s1)
  note p1 = Pair
  have f1: "filter isStatusNotification (sent s1) = filter isStatusNotification (sent s)"
    using tryHandleNoConfig_status [of ext err document library s] p1 by simp
  show ?thesis
  proof (cases r1)
    case (Some st)
    then have "st = StatusWarn"
      using tryHandleNoConfig_fst [of ext err document library s] p1 by (simp split: if_splits)
    with Some p1 f1 show ?thesis by (simp add: runHandlers_single)
  next
    case None
    note n1 = None
    show ?thesis
    proof (cases "tryHandleConfigError ext err document library s1")
      case (Pair r2 s2)
      have f2: "filter isStatusNotification (sent s2) = filter isStatusNotification (sent s)"
        using tryHandleConfigError_status [of ext err document library s1] Pair f1 by simp
      show ?thesis
      proof (cases r2)
        case None
        with Pair p1 n1 f2 show ?thesis
          by (simp add: runHandlers_single showErrorMessage_def send_def)
      next
        case (Some st)
        then have "st = StatusWarn"
          using tryHandleConfigError_fst [of ext err document library s1] Pair by simp
        with Some Pair p1 n1 f2 show ?thesis by (simp add: runHandlers_single)
      qed
    qed
  qed
qed

text \<open>
  Claim C6. The handlers of a single-document validation run in the order no-config,
  config-error, generic, and the first that returns a status ends the run; the generic
  handler always returns \<open>error\<close>. So a single-document validation (the lint engine is
  loaded and invoked) publishes exactly one status notification on every branch, as the
  last message it sends: \<open>ok\<close> when \<open>validate\<close> returns, and otherwise the status the
  handlers return for the thrown error, which is \<open>warn\<close> or \<open>error\<close>. (For a document
  whose library could not be loaded no validation runs: \<open>validateSingle\<close> returns at
  once.)
\<close>

theorem validateSingle_publishes_status:
  "runHandlers (singleErrorHandlers ext) err document library s =
     (case tryHandleNoConfig ext err document library s of
        (Some st, s1) \<Rightarrow> (Some st, s1)
      | (None, s1) \<Rightarrow>
          (case tryHandleConfigError ext err document library s1 of
             (Some st, s2) \<Rightarrow> (Some st, s2)
           | (None, s2) \<Rightarrow> showErrorMessage ext err document library s2))
   \<and> fst (showErrorMessage ext err document library s) = Some StatusError
   \<and> (\<exists>st. filter isStatusNotification
               (sent (validateSingle ext document (Some library) outcome s))
             = filter isStatusNotification (sent s) @ [StatusNotification st]
          \<and> last (sent (validateSingle ext document (Some library) outcome s))
             = StatusNotification st
          \<and> (case fst (validate document outcome s) of
                None \<Rightarrow> st = StatusOk
              | Some thrown \<Rightarrow>
                  (st = StatusWarn \<or> st = StatusError)
                  \<and> Some st = fst (runHandlers (singleErrorHandlers ext) thrown document library
                                     (snd (validate document outcome s)))))
   \<and> validateSingle ext document None outcome s = s"
proof (intro conjI)
  show "validateSingle ext document None outcome s = s"
    by (simp add: validateSingle_def)
  show "runHandlers (singleErrorHandlers ext) err document library s =
     (case tryHandleNoConfig ext err document library s of
        (Some st, s1) \<Rightarrow> (Some st, s1)
      | (None, s1) \<Rightarrow>
          (case tryHandleConfigError ext err document library s1 of
             (Some st, s2) \<Rightarrow> (Some st, s2)
           | (None, s2) \<Rightarrow> showErrorMessage ext err document library s2))"
    by (rule runHandlers_single)
  show "fst (showErrorMessage ext err document library s) = Some StatusError"
    by (simp add: showErrorMessage_def)
  obtain r s1 where v: "validate document outcome s = (r, s1)"
    by (cases "validate document outcome s")
  have f1: "filter isStatusNotification (sent s1) = filter isStatusNotification (sent s)"
    using validate_status [of document outcome s] v by simp
  show "\<exists>st. filter isStatusNotification
               (sent (validateSingle ext document (Some library) outcome s))
             = filter isStatusNotification (sent s) @ [StatusNotification st]
          \<and> last (sent (validateSingle ext document (Some library) outcome s))
             = StatusNotification st
          \<and> (case fst (validate document outcome s) of
                None \<Rightarrow> st = StatusOk
              | Some thrown \<Rightarrow>
                  (st = StatusWarn \<or> st = StatusError)
                  \<and> Some st = fst (runHandlers (singleErrorHandlers ext) thrown document library
                                     (snd (validate document outcome s))))"
  proof (cases r)
    case None
    with v f1 show ?thesis
      by (intro exI [where x = StatusOk]) (simp add: validateSingle_def send_def)
  next
    case (Some thrown)
    obtain st s2 where h:
        "runHandlers (singleErrorHandlers ext) thrown document library s1 = (Some st, s2)"
        "st = StatusWarn \<or> st = StatusError"
        "filter isStatusNotification (sent s2) = filter isStatusNotification (sent s1)"
      using runHandlers_single_result [of ext thrown document library s1] by blast
    with Some v f1 show ?thesis
      by (intro exI [where x = st]) (simp add: validateSingle_def send_def)
  qed
qed

lemma sample_validate_throws:
  "fst (validate docA (ExecuteThrows genericError) sampleServer) = Some genericError"
  by (simp add: validate_def)

theorem validateSingle_publishes_status_witness:
  "\<exists>st. last (sent (validateSingle sampleExt docA (Some sampleLibrary)
                      (ExecuteThrows genericError) sampleServer)) = StatusNotification st
        \<and> (st = StatusWarn \<or> st = StatusError)
        \<and> filter isStatusNotification
             (sent (validateSingle sampleExt docA (Some sampleLibrary)
                      (ExecuteThrows genericError) sampleServer))
           = filter isStatusNotification (sent sampleServer) @ [StatusNotification st]
        \<and> validateSingle sampleExt docA None (ExecuteThrows genericError) sampleServer
           = sampleServer"
  using validateSingle_publishes_status
    [of sampleExt genericError docA sampleLibrary sampleServer "ExecuteThrows genericError"]
    sample_validate_throws
  by auto

text \<open>What the sample validation sends.\<close>

lemma sample_validateSingle:
  "sent (validateSingle sampleExt docA (Some sampleLibrary) (ExecuteThrows genericError)
           sampleServer)
   = [ShowErrorMessage ''Unexpected token'', StatusNotification StatusError]"
  by code_simp

section \<open>The no-config classifier\<close>



























text \<open>
  The specification's scenario C: the engine throws \<open>No ESLint configuration found.\<close> for
  \<open>file:///a.js\<close>, twice.
\<close>

lemma sample_noConfig_twice:
  "sent (handleEvents sampleExt
           [ValidateSingleEvent docA (Some sampleLibrary) (ExecuteThrows noConfigError),
            ValidateSingleEvent docA (Some sampleLibrary) (ExecuteThrows noConfigError)]
           sampleServer)
   = [NoConfigRequest ''No ESLint configuration found.'' ''file:///a.js'',
      StatusNotification StatusWarn, StatusNotification StatusWarn]"
  by code_simp

section \<open>Batch validation\<close>

text \<open>
  Claim C1. The status a batch validation publishes is not the worst outcome of its
  attempts and depends on the order in which they complete. Two documents are validated:
  for \<open>file:///a.js\<close> the engine throws an error no classifier handles, for
  \<open>file:///b.js\<close> it throws a no-config error. When the attempt for \<open>a.js\<close> completes
  first, the published status is \<open>warn\<close>; when it completes last, \<open>error\<close>.
\<close>

theorem validateMany_status_depends_on_order:
  "last (sent (validateMany sampleExt
           [(docA, ExecuteThrows genericError), (docB, ExecuteThrows noConfigError)] sampleServer))
     = StatusNotification StatusWarn
   \<and> last (sent (validateMany sampleExt
           [(docB, ExecuteThrows noConfigError), (docA, ExecuteThrows genericError)] sampleServer))
     = StatusNotification StatusError"
  by code_simp

text \<open>All that the first of the two runs sends: the error is shown, the status is \<open>warn\<close>.\<close>

lemma sample_validateMany:
  "sent (validateMany sampleExt
           [(docA, ExecuteThrows genericError), (docB, ExecuteThrows noConfigError)] sampleServer)
   = [NoConfigRequest ''No ESLint configuration found.'' ''file:///b.js'',
      ShowErrorMessage ''Unexpected token'', StatusNotification StatusWarn]"
  by code_simp

end
